theory Spec2Isabelle
  imports Complex_Main
begin

section \<open>Errors\<close>

text \<open>
  The notebooks raise Python exceptions; the model returns them as values.
  \<open>IndexError\<close> is raised by list indexing out of range, \<open>ValueError\<close> by the array
  library when shapes do not fit (stacking no arrays, a product or sum of arrays of
  unequal shape, a reshape to a different size), \<open>ZeroDivisionError\<close> by the division of
  a Python float by a Python float that is zero; it is the DivisionError kind of the
  specification.
\<close>

datatype py_error = IndexError | ValueError | ZeroDivisionError

section \<open>Data model of the tomography notebook\<close>

text \<open>
  A single-qubit Pauli operator. A Pauli term is a tensor product of such operators
  with a coefficient: it stores the operators that are not the identity, keyed by
  qubit, in the order of the qubits.
\<close>

datatype pauli = PauliI | PauliX | PauliY | PauliZ

record pauli_term =
  ops :: "(nat \<times> pauli) list"
  coefficient :: complex

text \<open>\<open>term[qubit]\<close>: the operator on a qubit, the identity when the term has none there.\<close>

definition term_op :: "pauli_term \<Rightarrow> nat \<Rightarrow> pauli" where
  "term_op t q = (case map_of (ops t) q of None \<Rightarrow> PauliI | Some p \<Rightarrow> p)"

text \<open>
  An input state is a product of one-qubit states, each an eigenstate of a Pauli
  operator given by label, index and qubit; \<open>Z0_1\<close> is \<open>(PauliZ, 0, 1)\<close>.
\<close>

type_synonym tensor_product_state = "(pauli \<times> nat \<times> nat) list"

record experiment_setting =
  in_state :: tensor_product_state
  out_operator :: pauli_term

text \<open>
  A result is a setting with the estimated expectation and its standard error. The
  expectations are real numbers, as all that the notebook prints are.
\<close>

record experiment_result =
  setting :: experiment_setting
  expectation :: real
  std_err :: real

text \<open>
  The setting \<open>Z0_0 * Z0_1 \<rightarrow> (1+0j)*Z0Z1\<close> of the notebook, used in examples.
\<close>

definition setting_Z0Z1 :: experiment_setting where
  "setting_Z0Z1 =
     \<lparr>in_state = [(PauliZ, 0, 0), (PauliZ, 0, 1)],
      out_operator = \<lparr>ops = [(0, PauliZ), (1, PauliZ)], coefficient = 1\<rparr>\<rparr>"

section \<open>Correction step\<close>

text \<open>
  The expectation and the standard error of a result are Python floats or numpy
  \<open>float64\<close> numbers, and the class decides what a division by zero does. A number
  carries its class. Its value is a real number, on which the arithmetic is exact, or,
  for the result of a numpy division by zero and for what is computed from it, not
  finite: an infinity or not-a-number.
\<close>

datatype float_kind = PyFloat | NpFloat64

datatype fval = Finite real | NonFinite

type_synonym pyfloat = "float_kind \<times> real"
type_synonym pynum = "float_kind \<times> fval"

text \<open>
  The class of the result of a binary operation: a Python float when both operands
  are, a numpy number otherwise.
\<close>

definition join_kind :: "float_kind \<Rightarrow> float_kind \<Rightarrow> float_kind" where
  "join_kind k k' = (if k = PyFloat \<and> k' = PyFloat then PyFloat else NpFloat64)"

text \<open>\<open>a ** n\<close> and \<open>a * b\<close> on finite numbers.\<close>

definition py_pow :: "pyfloat \<Rightarrow> nat \<Rightarrow> pyfloat" where
  "py_pow a n = (fst a, snd a ^ n)"

definition py_mul :: "pyfloat \<Rightarrow> pyfloat \<Rightarrow> pyfloat" where
  "py_mul a b = (join_kind (fst a) (fst b), snd a * snd b)"

text \<open>
  \<open>a / b\<close> on finite numbers. For \<open>b\<close> zero, Python raises \<open>ZeroDivisionError\<close> when both
  are Python floats; when one is a numpy number nothing is raised: numpy warns, and the
  quotient is an infinity or not-a-number.
\<close>

definition py_truediv :: "pyfloat \<Rightarrow> pyfloat \<Rightarrow> py_error + pynum" where
  "py_truediv a b =
     (if snd b = 0 then
        (if fst a = PyFloat \<and> fst b = PyFloat then Inl ZeroDivisionError
         else Inr (NpFloat64, NonFinite))
      else Inr (join_kind (fst a) (fst b), Finite (snd a / snd b)))"

text \<open>\<open>a + b\<close>, and \<open>np.sqrt(a).item()\<close>, which is a Python float.\<close>

definition py_add :: "pynum \<Rightarrow> pynum \<Rightarrow> pynum" where
  "py_add a b =
     (join_kind (fst a) (fst b),
      case (snd a, snd b) of
        (Finite x, Finite y) \<Rightarrow> Finite (x + y)
      | _ \<Rightarrow> NonFinite)"

definition np_sqrt_item :: "pynum \<Rightarrow> pynum" where
  "np_sqrt_item a =
     (PyFloat,
      case snd a of
        Finite x \<Rightarrow> if x < 0 then NonFinite else Finite (sqrt x)
      | NonFinite \<Rightarrow> NonFinite)"

text \<open>
  Modelled from the spec: \<open>ratio_variance\<close> is the helper of \<open>pyquil.experiment\<close> that
  \<open>correct_experiment_result\<close> calls; its body is missing from the repository. It is the
  first-order variance of a ratio \<open>a / b\<close>, the propagation that section 4.1 of the
  specification names: \<open>var_a / b ** 2 + a ** 2 * var_b / b ** 4\<close>.
\<close>

definition ratio_variance :: "pyfloat \<Rightarrow> pyfloat \<Rightarrow> pyfloat \<Rightarrow> pyfloat \<Rightarrow> py_error + pynum" where
  "ratio_variance a var_a b var_b =
     (case py_truediv var_a (py_pow b 2) of
        Inl e \<Rightarrow> Inl e
      | Inr first \<Rightarrow>
         (case py_truediv (py_mul (py_pow a 2) var_b) (py_pow b 4) of
            Inl e \<Rightarrow> Inl e
          | Inr second \<Rightarrow> Inr (py_add first second)))"

text \<open>
  The classes of the two numbers of a result, and a corrected result. The expectation
  and the standard error of a result, as real numbers, are those of \<open>experiment_result\<close>.
\<close>

record float_kinds =
  expectation_kind :: float_kind
  std_err_kind :: float_kind

record corrected_result =
  c_setting :: experiment_setting
  c_expectation :: pynum
  c_std_err :: pynum

text \<open>
  Modelled from the spec: \<open>correct_experiment_result\<close> is imported by the notebook from
  \<open>pyquil.experiment\<close> and only called there (once per pair of a raw result and its
  calibration); its body is missing from the repository. Section 4.1 of the
  specification has it divide the raw expectation by the calibration expectation and
  propagate the standard errors to first order for a ratio. The definition computes
  this as the imported function does: the quotient \<open>e_r / e_c\<close>, and the square root of
  \<open>ratio_variance e_r (s_r ** 2) e_c (s_c ** 2)\<close>, which is the formula of section 4.1
  wherever the raw expectation is not zero. The function has
  no guard: not at a raw expectation of zero, where section 4.1 would take the first
  term under the root as zero, and not at a calibration expectation of zero, where the
  division of the language decides what happens. The corrected result keeps the setting
  of the raw result. The corrected expectation and standard error that the notebook
  prints are those of this definition (lemma \<open>notebook_corrected_X0X1\<close>).
\<close>

definition correct_experiment_result ::
  "float_kinds \<Rightarrow> experiment_result \<Rightarrow> float_kinds \<Rightarrow> experiment_result
   \<Rightarrow> py_error + corrected_result" where
  "correct_experiment_result kr r kc c =
     (let e_r = (expectation_kind kr, expectation r); s_r = (std_err_kind kr, std_err r);
          e_c = (expectation_kind kc, expectation c); s_c = (std_err_kind kc, std_err c)
      in case py_truediv e_r e_c of
           Inl e \<Rightarrow> Inl e
         | Inr corrected_expectation \<Rightarrow>
            (case ratio_variance e_r (py_pow s_r 2) e_c (py_pow s_c 2) of
               Inl e \<Rightarrow> Inl e
             | Inr corrected_variance \<Rightarrow>
                Inr \<lparr>c_setting = setting r,
                     c_expectation = corrected_expectation,
                     c_std_err = np_sqrt_item corrected_variance\<rparr>))"

text \<open>
  The loop of the notebook:
  \<open>for r, c in zip(results, calibrations): results_corrected.append(correct_experiment_result(r, c))\<close>.
  The first failing correction ends it.
\<close>

fun correct_all ::
  "((float_kinds \<times> experiment_result) \<times> (float_kinds \<times> experiment_result)) list
   \<Rightarrow> corrected_result list \<Rightarrow> py_error + corrected_result list" where
  "correct_all [] results_corrected = Inr results_corrected"
| "correct_all (((kr, r), (kc, c)) # rest) results_corrected =
     (case correct_experiment_result kr r kc c of
        Inl e \<Rightarrow> Inl e
      | Inr r' \<Rightarrow> correct_all rest (results_corrected @ [r']))"

text \<open>Results whose numbers are all numpy numbers, or all Python floats.\<close>

definition np_kinds :: float_kinds where
  "np_kinds = \<lparr>expectation_kind = NpFloat64, std_err_kind = NpFloat64\<rparr>"

definition py_kinds :: float_kinds where
  "py_kinds = \<lparr>expectation_kind = PyFloat, std_err_kind = PyFloat\<rparr>"

section \<open>Measurement settings\<close>

text \<open>
  Modelled from the spec: \<open>zeros_state\<close> is imported by the notebook from
  \<open>pyquil.experiment\<close>; its body is missing from the repository. The specification has
  it prepare the all-zeros state on the qubits: the \<open>+1\<close> eigenstate of Z on every
  qubit, which the notebook prints as \<open>Z0_0 * Z0_1\<close>.
\<close>

definition zeros_state :: "nat list \<Rightarrow> tensor_product_state" where
  "zeros_state qubits = map (\<lambda>q. (PauliZ, 0, q)) qubits"

text \<open>
  The Pauli term with operator \<open>labels[j]\<close> on \<open>qubits[j]\<close> and coefficient \<open>1\<close>; identity
  factors are not stored.
\<close>

definition pauli_term_of :: "nat list \<Rightarrow> pauli list \<Rightarrow> pauli_term" where
  "pauli_term_of qubits labels =
     \<lparr>ops = filter (\<lambda>(q, p). p \<noteq> PauliI) (zip qubits labels), coefficient = 1\<rparr>"

text \<open>
  Modelled from the spec: \<open>all_traceless_pauli_terms\<close> is imported by the notebook from
  \<open>forest.benchmarking.utils\<close>; its body is missing from the repository. The
  specification has it enumerate exhaustively all tensor products of Pauli operators on
  the qubits that are not the identity. The order is the one the notebook prints for
  the qubits \<open>(0, 1)\<close>: all label tuples over I, X, Y, Z with the label of the first
  qubit varying slowest, without the first tuple, which is the identity.
\<close>

definition all_traceless_pauli_terms :: "nat list \<Rightarrow> pauli_term list" where
  "all_traceless_pauli_terms qubits =
     tl (map (pauli_term_of qubits)
          (product_lists (replicate (length qubits) [PauliI, PauliX, PauliY, PauliZ])))"

text \<open>
  The generator \<open>state_tomo_settings\<close>, as the list of the settings it yields. The
  source binds \<open>list_of_terms\<close> and then iterates over a second call.
\<close>

definition state_tomo_settings :: "nat list \<Rightarrow> experiment_setting list" where
  "state_tomo_settings qubits =
     (let list_of_terms = all_traceless_pauli_terms qubits in
      map (\<lambda>obs. \<lparr>in_state = zeros_state qubits, out_operator = obs\<rparr>)
        (all_traceless_pauli_terms qubits))"

section \<open>Arrays\<close>

text \<open>
  A two-dimensional array of complex numbers is the list of its rows, a one-dimensional
  array a list. \<open>is_mat r c A\<close> says that \<open>A\<close> has shape \<open>(r, c)\<close>. The operations are
  those of the array library that the notebook calls (\<open>np.eye\<close>, \<open>np.kron\<close>, \<open>np.vstack\<close>,
  \<open>.T.conj()\<close>, \<open>@\<close>, \<open>+\<close>, \<open>/\<close>), on exact complex numbers: the rounding of floating-point
  arithmetic is not part of the model.
\<close>

type_synonym cvec = "complex list"
type_synonym cmat = "complex list list"

definition nrows :: "cmat \<Rightarrow> nat" where
  "nrows A = length A"

definition ncols :: "cmat \<Rightarrow> nat" where
  "ncols A = (case A of [] \<Rightarrow> 0 | row # _ \<Rightarrow> length row)"

definition is_mat :: "nat \<Rightarrow> nat \<Rightarrow> cmat \<Rightarrow> bool" where
  "is_mat r c A \<longleftrightarrow> length A = r \<and> list_all (\<lambda>row. length row = c) A"

definition mat_of :: "nat \<Rightarrow> nat \<Rightarrow> (nat \<Rightarrow> nat \<Rightarrow> complex) \<Rightarrow> cmat" where
  "mat_of r c f = map (\<lambda>i. map (\<lambda>j. f i j) [0..<c]) [0..<r]"

text \<open>\<open>np.eye(dim)\<close>, \<open>A / x\<close> and \<open>A * x\<close> with a scalar \<open>x\<close>.\<close>

definition eye :: "nat \<Rightarrow> cmat" where
  "eye d = mat_of d d (\<lambda>i j. if i = j then 1 else 0)"

definition mat_div :: "cmat \<Rightarrow> complex \<Rightarrow> cmat" where
  "mat_div A x = map (map (\<lambda>a. a / x)) A"

definition mat_scale :: "cmat \<Rightarrow> complex \<Rightarrow> cmat" where
  "mat_scale A x = map (map (\<lambda>a. a * x)) A"

text \<open>
  \<open>A + B\<close> on arrays of the same shape; on other shapes the model fails (the
  broadcasting of unequal shapes does not arise in the notebook).
\<close>

definition mat_add :: "cmat \<Rightarrow> cmat \<Rightarrow> py_error + cmat" where
  "mat_add A B =
     (if map length A = map length B then Inr (map2 (map2 (+)) A B) else Inl ValueError)"

text \<open>\<open>A.T.conj()\<close>, the conjugate transpose.\<close>

definition herm :: "cmat \<Rightarrow> cmat" where
  "herm A = mat_of (ncols A) (nrows A) (\<lambda>i j. cnj (A ! j ! i))"

text \<open>\<open>np.kron(A, B)\<close>: entry \<open>(i, j)\<close> is \<open>A[i div r, j div c] * B[i mod r, j mod c]\<close> for \<open>B\<close> of shape \<open>(r, c)\<close>.\<close>

definition kron :: "cmat \<Rightarrow> cmat \<Rightarrow> cmat" where
  "kron A B =
     mat_of (nrows A * nrows B) (ncols A * ncols B)
       (\<lambda>i j. A ! (i div nrows B) ! (j div ncols B) * B ! (i mod nrows B) ! (j mod ncols B))"

text \<open>The product of two-dimensional arrays, and \<open>A @ v\<close> with a one-dimensional \<open>v\<close>.\<close>

definition dot :: "cvec \<Rightarrow> cvec \<Rightarrow> complex" where
  "dot u v = sum_list (map (\<lambda>k. u ! k * v ! k) [0..<length u])"

definition mat_mul :: "cmat \<Rightarrow> cmat \<Rightarrow> cmat" where
  "mat_mul A B =
     mat_of (nrows A) (ncols B) (\<lambda>i j. sum_list (map (\<lambda>k. A ! i ! k * B ! k ! j) [0..<nrows B]))"

definition mat_vec :: "cmat \<Rightarrow> cvec \<Rightarrow> py_error + cvec" where
  "mat_vec A v =
     (if list_all (\<lambda>row. length row = length v) A then Inr (map (\<lambda>row. dot row v) A)
      else Inl ValueError)"

text \<open>
  \<open>np.vstack(arrays)\<close>: the rows of all arrays, in order. It raises when there is no
  array to stack and when the arrays differ in their number of columns.
\<close>

definition vstack :: "cmat list \<Rightarrow> py_error + cmat" where
  "vstack arrays =
     (case arrays of
        [] \<Rightarrow> Inl ValueError
      | A # _ \<Rightarrow>
          if list_all (\<lambda>B. ncols B = ncols A) arrays then Inr (concat arrays)
          else Inl ValueError)"

definition trace :: "cmat \<Rightarrow> complex" where
  "trace A = sum_list (map (\<lambda>i. A ! i ! i) [0..<length A])"

section \<open>Vectorization\<close>

text \<open>
  Modelled from the spec: \<open>vec\<close> and \<open>unvec\<close> are imported by the notebook from
  \<open>forest.benchmarking\<close>; their bodies are missing from the repository. The specification
  asks for one fixed vectorization convention and its inverse. Here it is column
  stacking, as in that library: \<open>vec(A) = A.T.reshape((-1, 1))\<close> is the column vector with
  entry \<open>A[i, j]\<close> at position \<open>j * r + i\<close> for \<open>A\<close> with \<open>r\<close> rows, and \<open>unvec(v)\<close> is
  \<open>v.reshape(dim, dim).T\<close> with \<open>dim = int(sqrt(v.size))\<close>; the reshape raises when
  \<open>v.size\<close> is not \<open>dim * dim\<close>.
\<close>

definition vec :: "cmat \<Rightarrow> cmat" where
  "vec A = map (\<lambda>k. [A ! (k mod nrows A) ! (k div nrows A)]) [0..<nrows A * ncols A]"

definition isqrt :: "nat \<Rightarrow> nat" where
  "isqrt n = length (filter (\<lambda>k. k * k \<le> n) [1..<Suc n])"

definition unvec :: "cvec \<Rightarrow> py_error + cmat" where
  "unvec v =
     (let dim = isqrt (length v) in
      if dim * dim = length v then Inr (mat_of dim dim (\<lambda>i j. v ! (j * dim + i)))
      else Inl ValueError)"

section \<open>Matrices of Pauli terms\<close>

text \<open>The matrices of the one-qubit operators (\<open>pyquil.simulation.matrices\<close>).\<close>

fun gate_matrix :: "pauli \<Rightarrow> cmat" where
  "gate_matrix PauliI = [[1, 0], [0, 1]]"
| "gate_matrix PauliX = [[0, 1], [1, 0]]"
| "gate_matrix PauliY = [[0, - \<i>], [\<i>, 0]]"
| "gate_matrix PauliZ = [[1, 0], [0, - 1]]"

text \<open>
  Modelled from the spec: \<open>lifted_pauli\<close> is imported by the notebook from
  \<open>pyquil.simulation.tools\<close>; its body is missing from the repository. The
  specification has it compute the matrix of an observable as the tensor product of
  the \<open>2 \<times> 2\<close> Pauli matrices, one per qubit of the list, scaled by the coefficient, a
  \<open>2^n \<times> 2^n\<close> complex matrix. The factor of the first qubit of the list is the
  rightmost one, as that library orders qubits: each further qubit multiplies from
  the left. A qubit of the term that is not in the list has no factor.
\<close>

definition lifted_pauli :: "pauli_term \<Rightarrow> nat list \<Rightarrow> cmat" where
  "lifted_pauli t qubits =
     mat_scale
       (foldl (\<lambda>term_hilbert qubit. kron (gate_matrix (term_op t qubit)) term_hilbert) [[1]] qubits)
       (coefficient t)"

section \<open>Linear-inversion estimator\<close>

text \<open>
  \<open>pinv\<close> is \<open>scipy.linalg.pinv\<close>, a parameter of the model. \<open>is_pinv A P\<close> says that
  \<open>P\<close> is the Moore-Penrose pseudo-inverse of \<open>A\<close>: it has the shape of the transpose
  and satisfies the four Penrose equations. \<open>pinv_shape A P\<close> is the part on the shape.
\<close>

definition pinv_shape :: "cmat \<Rightarrow> cmat \<Rightarrow> bool" where
  "pinv_shape A P \<longleftrightarrow> is_mat (ncols A) (nrows A) P"

definition is_pinv :: "cmat \<Rightarrow> cmat \<Rightarrow> bool" where
  "is_pinv A P \<longleftrightarrow>
     pinv_shape A P
     \<and> mat_mul (mat_mul A P) A = A
     \<and> mat_mul (mat_mul P A) P = P
     \<and> herm (mat_mul A P) = mat_mul A P
     \<and> herm (mat_mul P A) = mat_mul P A"

text \<open>
  The pseudo-inverse of a matrix whose rows are orthogonal and all of the squared norm
  \<open>c \<noteq> 0\<close> of the first row: the conjugate transpose divided by \<open>c\<close>. The measurement
  matrices of Pauli observables are of this kind; the examples use it for \<open>pinv\<close>.
\<close>

definition pinv_orthogonal_rows :: "cmat \<Rightarrow> cmat" where
  "pinv_orthogonal_rows A =
     (case A of
        [] \<Rightarrow> []
      | row # _ \<Rightarrow> mat_div (herm A) (dot row (map cnj row)))"

text \<open>
  The measurement matrix and the vector of expectations that
  \<open>linear_inv_state_estimate\<close> builds, and the estimator itself.
\<close>

definition measurement_matrix :: "experiment_result list \<Rightarrow> nat list \<Rightarrow> py_error + cmat" where
  "measurement_matrix results qubits =
     vstack (map (\<lambda>result. herm (vec (lifted_pauli (out_operator (setting result)) qubits))) results)"

text \<open>
  The row of the measurement matrix for an observable with the \<open>d \<times> d\<close> matrix \<open>A\<close>:
  the conjugated entries of \<open>A\<close>, column after column.
\<close>

definition obs_row :: "nat \<Rightarrow> cmat \<Rightarrow> cvec" where
  "obs_row d A = map (\<lambda>k. cnj (A ! (k mod d) ! (k div d))) [0..<d * d]"

definition expectations :: "experiment_result list \<Rightarrow> cvec" where
  "expectations results = map (\<lambda>result. complex_of_real (expectation result)) results"

definition linear_inv_state_estimate ::
  "(cmat \<Rightarrow> cmat) \<Rightarrow> experiment_result list \<Rightarrow> nat list \<Rightarrow> py_error + cmat" where
  "linear_inv_state_estimate pinv results qubits =
     (case measurement_matrix results qubits of
        Inl e \<Rightarrow> Inl e
      | Inr M \<Rightarrow>
         (case mat_vec (pinv M) (expectations results) of
            Inl e \<Rightarrow> Inl e
          | Inr rho \<Rightarrow>
             (let dim = 2 ^ length qubits in
              case unvec rho of
                Inl e \<Rightarrow> Inl e
              | Inr U \<Rightarrow> mat_add U (mat_div (eye dim) (of_nat dim)))))"

section \<open>The estimator in the words of the specification\<close>

text \<open>
  The specification fixes one vectorization convention; here it is column stacking:
  \<open>spec_vec A\<close> is the concatenation of the columns of \<open>A\<close>, and \<open>spec_unvec d v\<close> is the
  \<open>d \<times> d\<close> matrix whose column \<open>j\<close> is the block of \<open>v\<close> from position \<open>j * d\<close> on.
\<close>

definition spec_vec :: "cmat \<Rightarrow> cvec" where
  "spec_vec A = concat (map (\<lambda>j. map (\<lambda>i. A ! i ! j) [0..<nrows A]) [0..<ncols A])"

definition spec_unvec :: "nat \<Rightarrow> cvec \<Rightarrow> cmat" where
  "spec_unvec d v = mat_of d d (\<lambda>i j. take d (drop (j * d) v) ! i)"

text \<open>
  The measurement matrix \<open>M\<close>: its rows are the conjugated vectorized matrices of the
  observables, in the order of the input.
\<close>

definition spec_measurement_matrix :: "experiment_result list \<Rightarrow> nat list \<Rightarrow> cmat" where
  "spec_measurement_matrix results qubits =
     map (\<lambda>result. map cnj (spec_vec (lifted_pauli (out_operator (setting result)) qubits))) results"

text \<open>\<open>unvec (pinv M @ y) + I / 2^n\<close>, entry by entry.\<close>

definition spec_estimate :: "(cmat \<Rightarrow> cmat) \<Rightarrow> experiment_result list \<Rightarrow> nat list \<Rightarrow> cmat" where
  "spec_estimate pinv results qubits =
     (let d = 2 ^ length qubits;
          M = spec_measurement_matrix results qubits;
          y = expectations results;
          rho_vec = map (\<lambda>row. dot row y) (pinv M)
      in mat_of d d (\<lambda>i j. spec_unvec d rho_vec ! i ! j + (if i = j then 1 / of_nat d else 0)))"

section \<open>The pseudo-inverse on the inputs of the estimator\<close>

text \<open>
  The hypotheses on \<open>pinv\<close>: on the measurement matrix that the estimator builds from
  the input, \<open>pinv\<close> returns a matrix of the shape of the pseudo-inverse
  (\<open>pinv_shaped\<close>), the Moore-Penrose pseudo-inverse itself (\<open>pinv_correct\<close>).
\<close>

definition pinv_shaped :: "(cmat \<Rightarrow> cmat) \<Rightarrow> experiment_result list \<Rightarrow> nat list \<Rightarrow> bool" where
  "pinv_shaped pinv results qubits \<longleftrightarrow>
     (case measurement_matrix results qubits of
        Inl e \<Rightarrow> True
      | Inr M \<Rightarrow> pinv_shape M (pinv M))"

definition pinv_correct :: "(cmat \<Rightarrow> cmat) \<Rightarrow> experiment_result list \<Rightarrow> nat list \<Rightarrow> bool" where
  "pinv_correct pinv results qubits \<longleftrightarrow>
     (case measurement_matrix results qubits of
        Inl e \<Rightarrow> True
      | Inr M \<Rightarrow> is_pinv M (pinv M))"

text \<open>The Gram matrix of the rows of \<open>A\<close>, the product of \<open>A\<close> with its conjugate transpose.\<close>

definition gram :: "cmat \<Rightarrow> cmat" where
  "gram A = map (\<lambda>r. map (\<lambda>r'. dot r (map cnj r')) A) A"

text \<open>
  Entry \<open>b\<close> of the vector \<open>P\<^sup>H P y\<close>, for \<open>P\<close> of shape \<open>(n, m)\<close>; the product \<open>P y\<close> of a
  pseudo-inverse is the conjugate transpose of the matrix applied to this vector.
\<close>

definition gram_vec :: "cmat \<Rightarrow> cvec \<Rightarrow> nat \<Rightarrow> nat \<Rightarrow> nat \<Rightarrow> complex" where
  "gram_vec P y n m b = (\<Sum>i<m. (\<Sum>a<n. cnj (P ! a ! b) * P ! a ! i) * y ! i)"

section \<open>Inputs of the notebook and of the examples\<close>

text \<open>
  The results of an experiment over the settings of \<open>state_tomo_settings\<close>, in their
  order, with the given expectations.
\<close>

definition results_of :: "nat list \<Rightarrow> real list \<Rightarrow> experiment_result list" where
  "results_of qubits es =
     map2 (\<lambda>s e. \<lparr>setting = s, expectation = e, std_err = 0\<rparr>) (state_tomo_settings qubits) es"

text \<open>
  The exact expectations of the Bell state \<open>(|00> + |11>) / sqrt 2\<close> on the fifteen
  settings of the qubits \<open>(0, 1)\<close>: \<open>+1\<close> for X0X1, \<open>-1\<close> for Y0Y1, \<open>+1\<close> for Z0Z1 and
  \<open>0\<close> for all others.
\<close>

definition bell_expectations :: "real list" where
  "bell_expectations = [0, 0, 0, 0, 1, 0, 0, 0, 0, - 1, 0, 0, 0, 0, 1]"

definition bell_results :: "experiment_result list" where
  "bell_results = results_of [0, 1] bell_expectations"

definition rho_bell :: cmat where
  "rho_bell = [[1 / 2, 0, 0, 1 / 2], [0, 0, 0, 0], [0, 0, 0, 0], [1 / 2, 0, 0, 1 / 2]]"

definition within_tol :: "real \<Rightarrow> cmat \<Rightarrow> cmat \<Rightarrow> bool" where
  "within_tol tol A B \<longleftrightarrow> list_all2 (list_all2 (\<lambda>a b. cmod (a - b) \<le> tol)) A B"

text \<open>The measurement matrix of the Bell input and its conjugate transpose, written out.\<close>

definition bell_M :: cmat where
  "bell_M =
    [[0, 0, 1, 0, 0, 0, 0, 1, 1, 0, 0, 0, 0, 1, 0, 0],
     [0, 0, - \<i>, 0, 0, 0, 0, - \<i>, \<i>, 0, 0, 0, 0, \<i>, 0, 0],
     [1, 0, 0, 0, 0, 1, 0, 0, 0, 0, - 1, 0, 0, 0, 0, - 1],
     [0, 1, 0, 0, 1, 0, 0, 0, 0, 0, 0, 1, 0, 0, 1, 0],
     [0, 0, 0, 1, 0, 0, 1, 0, 0, 1, 0, 0, 1, 0, 0, 0],
     [0, 0, 0, - \<i>, 0, 0, - \<i>, 0, 0, \<i>, 0, 0, \<i>, 0, 0, 0],
     [0, 1, 0, 0, 1, 0, 0, 0, 0, 0, 0, - 1, 0, 0, - 1, 0],
     [0, - \<i>, 0, 0, \<i>, 0, 0, 0, 0, 0, 0, - \<i>, 0, 0, \<i>, 0],
     [0, 0, 0, - \<i>, 0, 0, \<i>, 0, 0, - \<i>, 0, 0, \<i>, 0, 0, 0],
     [0, 0, 0, - 1, 0, 0, 1, 0, 0, 1, 0, 0, - 1, 0, 0, 0],
     [0, - \<i>, 0, 0, \<i>, 0, 0, 0, 0, 0, 0, \<i>, 0, 0, - \<i>, 0],
     [1, 0, 0, 0, 0, - 1, 0, 0, 0, 0, 1, 0, 0, 0, 0, - 1],
     [0, 0, 1, 0, 0, 0, 0, - 1, 1, 0, 0, 0, 0, - 1, 0, 0],
     [0, 0, - \<i>, 0, 0, 0, 0, \<i>, \<i>, 0, 0, 0, 0, - \<i>, 0, 0],
     [1, 0, 0, 0, 0, - 1, 0, 0, 0, 0, - 1, 0, 0, 0, 0, 1]]"

definition bell_MH :: cmat where
  "bell_MH =
    [[0, 0, 1, 0, 0, 0, 0, 0, 0, 0, 0, 1, 0, 0, 1],
     [0, 0, 0, 1, 0, 0, 1, \<i>, 0, 0, \<i>, 0, 0, 0, 0],
     [1, \<i>, 0, 0, 0, 0, 0, 0, 0, 0, 0, 0, 1, \<i>, 0],
     [0, 0, 0, 0, 1, \<i>, 0, 0, \<i>, - 1, 0, 0, 0, 0, 0],
     [0, 0, 0, 1, 0, 0, 1, - \<i>, 0, 0, - \<i>, 0, 0, 0, 0],
     [0, 0, 1, 0, 0, 0, 0, 0, 0, 0, 0, - 1, 0, 0, - 1],
     [0, 0, 0, 0, 1, \<i>, 0, 0, - \<i>, 1, 0, 0, 0, 0, 0],
     [1, \<i>, 0, 0, 0, 0, 0, 0, 0, 0, 0, 0, - 1, - \<i>, 0],
     [1, - \<i>, 0, 0, 0, 0, 0, 0, 0, 0, 0, 0, 1, - \<i>, 0],
     [0, 0, 0, 0, 1, - \<i>, 0, 0, \<i>, 1, 0, 0, 0, 0, 0],
     [0, 0, - 1, 0, 0, 0, 0, 0, 0, 0, 0, 1, 0, 0, - 1],
     [0, 0, 0, 1, 0, 0, - 1, \<i>, 0, 0, - \<i>, 0, 0, 0, 0],
     [0, 0, 0, 0, 1, - \<i>, 0, 0, - \<i>, - 1, 0, 0, 0, 0, 0],
     [1, - \<i>, 0, 0, 0, 0, 0, 0, 0, 0, 0, 0, - 1, \<i>, 0],
     [0, 0, 0, 1, 0, 0, - 1, - \<i>, 0, 0, \<i>, 0, 0, 0, 0],
     [0, 0, - 1, 0, 0, 0, 0, 0, 0, 0, 0, - 1, 0, 0, 1]]"

text \<open>
  \<open>build_rho_true\<close>: the ideal density matrix, from the gate matrices of
  \<open>pyquil.simulation.matrices\<close>. \<open>np.outer\<close> flattens its arguments.
\<close>

definition psm_I :: cmat where
  "psm_I = [[1, 0], [0, 1]]"

definition psm_H :: cmat where
  "psm_H = [[complex_of_real (1 / sqrt 2), complex_of_real (1 / sqrt 2)],
            [complex_of_real (1 / sqrt 2), - complex_of_real (1 / sqrt 2)]]"

definition psm_CNOT :: cmat where
  "psm_CNOT = [[1, 0, 0, 0], [0, 1, 0, 0], [0, 0, 0, 1], [0, 0, 1, 0]]"

definition outer :: "cmat \<Rightarrow> cmat \<Rightarrow> cmat" where
  "outer a b = map (\<lambda>x. map (\<lambda>y. x * y) (concat b)) (concat a)"

definition build_rho_true :: cmat where
  "build_rho_true =
     (let psi00 = [[1], [0], [0], [0]];
          bell00 = mat_mul (mat_mul psm_CNOT (kron psm_H psm_I)) psi00
      in outer bell00 (herm bell00))"

section \<open>GHZ program (Active Qubit Reset notebook)\<close>

text \<open>
  A Quil program is the list of its instructions in the order they were added.
  A memory reference is a register name with an offset.
\<close>

type_synonym memory_reference = "string \<times> nat"

datatype instr =
    H nat
  | CNOT nat nat
  | DECLARE string string nat
  | MEASURE nat memory_reference

text \<open>\<open>program.inst(...)\<close> appends instructions to the program.\<close>

definition inst :: "instr list \<Rightarrow> instr list \<Rightarrow> instr list" where
  "inst program new = program @ new"

text \<open>
  \<open>program.declare(name, type, size)\<close> appends the declaration and returns a reference
  to the start of the declared region, which remembers the declared size.
\<close>

definition declare_mem :: "instr list \<Rightarrow> string \<Rightarrow> string \<Rightarrow> nat \<Rightarrow> instr list \<times> (string \<times> nat)" where
  "declare_mem program name ty n = (inst program [DECLARE name ty n], (name, n))"

text \<open>\<open>ro[idx]\<close>: indexing a declared region beyond its size raises.\<close>

definition mem_index :: "string \<times> nat \<Rightarrow> nat \<Rightarrow> py_error + memory_reference" where
  "mem_index ro idx = (if idx < snd ro then Inr (fst ro, idx) else Inl IndexError)"

text \<open>\<open>qubits[i]\<close> on a Python list.\<close>

definition list_index :: "'a list \<Rightarrow> nat \<Rightarrow> py_error + 'a" where
  "list_index xs i = (if i < length xs then Inr (xs ! i) else Inl IndexError)"

text \<open>
  The local variables of \<open>ghz_program\<close>: the argument \<open>qubits\<close> (the caller's list) and
  the program under construction.
\<close>

record ghz_locals =
  qubits_v :: "nat list"
  program_v :: "instr list"

text \<open>The loop \<open>for i in range(len(qubits) - 1): program.inst(CNOT(qubits[i], qubits[i + 1]))\<close>.\<close>

fun cnot_loop :: "nat list \<Rightarrow> ghz_locals \<Rightarrow> py_error + ghz_locals" where
  "cnot_loop [] s = Inr s"
| "cnot_loop (i # is) s =
     (case list_index (qubits_v s) i of
        Inl e \<Rightarrow> Inl e
      | Inr a \<Rightarrow>
         (case list_index (qubits_v s) (i + 1) of
            Inl e \<Rightarrow> Inl e
          | Inr b \<Rightarrow> cnot_loop is (s\<lparr>program_v := inst (program_v s) [CNOT a b]\<rparr>)))"

text \<open>The comprehension \<open>[MEASURE(qubit, ro[idx]) for idx, qubit in enumerate(qubits)]\<close>.\<close>

fun measure_all :: "string \<times> nat \<Rightarrow> (nat \<times> nat) list \<Rightarrow> py_error + instr list" where
  "measure_all ro [] = Inr []"
| "measure_all ro ((idx, qubit) # rest) =
     (case mem_index ro idx of
        Inl e \<Rightarrow> Inl e
      | Inr r \<Rightarrow>
         (case measure_all ro rest of
            Inl e \<Rightarrow> Inl e
          | Inr ms \<Rightarrow> Inr (MEASURE qubit r # ms)))"

definition enumerate_py :: "'a list \<Rightarrow> (nat \<times> 'a) list" where
  "enumerate_py xs = zip [0..<length xs] xs"

definition ghz_program :: "nat list \<Rightarrow> py_error + ghz_locals" where
  "ghz_program qubits =
     (let s0 = \<lparr>qubits_v = qubits, program_v = []\<rparr> in
      case list_index (qubits_v s0) 0 of
        Inl e \<Rightarrow> Inl e
      | Inr q0 \<Rightarrow>
         (let s1 = s0\<lparr>program_v := inst (program_v s0) [H q0]\<rparr> in
          case cnot_loop [0..<length (qubits_v s1) - 1] s1 of
            Inl e \<Rightarrow> Inl e
          | Inr s2 \<Rightarrow>
             (let (p3, ro) = declare_mem (program_v s2) ''ro'' ''BIT'' (length (qubits_v s2));
                  s3 = s2\<lparr>program_v := p3\<rparr> in
              case measure_all ro (enumerate_py (qubits_v s3)) of
                Inl e \<Rightarrow> Inl e
              | Inr ms \<Rightarrow> Inr (s3\<lparr>program_v := inst (program_v s3) ms\<rparr>))))"

section \<open>Properties of the GHZ program\<close>

lemma cnot_loop_run:
  "\<forall>i \<in> set is. Suc i < length (qubits_v s) \<Longrightarrow>
   cnot_loop is s =
     Inr (s\<lparr>program_v := program_v s @ map (\<lambda>i. CNOT (qubits_v s ! i) (qubits_v s ! Suc i)) is\<rparr>)"
proof (induction "is" arbitrary: s)
  case Nil
  show ?case by simp
next
  case (Cons i rest)
  have i: "i < length (qubits_v s)" "Suc i < length (qubits_v s)"
    using Cons.prems by auto
  let ?s' = "s\<lparr>program_v := inst (program_v s) [CNOT (qubits_v s ! i) (qubits_v s ! Suc i)]\<rparr>"
  have "\<forall>j \<in> set rest. Suc j < length (qubits_v ?s')"
    using Cons.prems by simp
  from Cons.IH [OF this] show ?case
    using i by (simp add: list_index_def inst_def)
qed

lemma measure_all_run:
  "\<forall>p \<in> set ps. fst p < snd ro \<Longrightarrow>
   measure_all ro ps = Inr (map (\<lambda>p. MEASURE (snd p) (fst ro, fst p)) ps)"
  by (induction ps) (auto simp: mem_index_def)

lemma enumerate_py_map:
  "map f (enumerate_py xs) = map (\<lambda>i. f (i, xs ! i)) [0..<length xs]"
  by (rule nth_equalityI) (simp_all add: enumerate_py_def)

text \<open>
  C10. For every non-empty list of qubits, \<open>ghz_program\<close> returns a program that is
  exactly: one H gate on the first qubit; then the CNOT gates on the consecutive pairs
  \<open>(qs[i], qs[i+1])\<close> for \<open>i = 0, ..., len(qs) - 2\<close>, in order; then the declaration of
  the register \<open>ro\<close> of \<open>len(qs)\<close> bits; then one MEASURE of each \<open>qs[i]\<close> into \<open>ro[i]\<close>.
  The list \<open>qubits\<close> is the same after the call.
\<close>

theorem ghz_program_shape:
  assumes "qs \<noteq> []"
  shows "ghz_program qs =
    Inr \<lparr>qubits_v = qs,
         program_v =
           [H (qs ! 0)]
           @ map (\<lambda>i. CNOT (qs ! i) (qs ! (i + 1))) [0..<length qs - 1]
           @ [DECLARE ''ro'' ''BIT'' (length qs)]
           @ map (\<lambda>i. MEASURE (qs ! i) (''ro'', i)) [0..<length qs]\<rparr>"
proof -
  let ?s1 = "\<lparr>qubits_v = qs, program_v = [H (qs ! 0)]\<rparr>"
  have loop: "cnot_loop [0..<length qs - 1] ?s1 =
      Inr (?s1\<lparr>program_v := program_v ?s1 @ map (\<lambda>i. CNOT (qubits_v ?s1 ! i) (qubits_v ?s1 ! Suc i)) [0..<length qs - 1]\<rparr>)"
    by (rule cnot_loop_run) auto
  have "\<forall>p \<in> set (enumerate_py qs). fst p < snd (''ro'', length qs)"
    by (auto simp: enumerate_py_def in_set_zip)
  then have meas: "measure_all (''ro'', length qs) (enumerate_py qs) =
      Inr (map (\<lambda>i. MEASURE (qs ! i) (''ro'', i)) [0..<length qs])"
    by (simp add: measure_all_run enumerate_py_map)
  show ?thesis
    using assms loop meas
    by (simp add: ghz_program_def list_index_def inst_def declare_mem_def)
qed

theorem ghz_program_shape_witness:
  "[15, 16, 17] \<noteq> ([] :: nat list) \<and>
   ghz_program [15, 16, 17] =
     Inr \<lparr>qubits_v = [15, 16, 17],
          program_v = [H 15, CNOT 15 16, CNOT 16 17, DECLARE ''ro'' ''BIT'' 3,
                       MEASURE 15 (''ro'', 0), MEASURE 16 (''ro'', 1), MEASURE 17 (''ro'', 2)]\<rparr>"
  using ghz_program_shape [of "[15, 16, 17]"] by (simp add: upt_rec)

section \<open>Properties of the correction step\<close>

text \<open>
  For a calibration expectation that is not zero the correction returns finite numbers:
  the quotient, and the square root of the variance of the ratio.
\<close>

lemma correct_experiment_result_finite:
  assumes "expectation c \<noteq> 0"
  shows "correct_experiment_result kr r kc c =
    Inr \<lparr>c_setting = setting r,
         c_expectation = (join_kind (expectation_kind kr) (expectation_kind kc),
                          Finite (expectation r / expectation c)),
         c_std_err = (PyFloat,
                      Finite (sqrt ((std_err r)\<^sup>2 / (expectation c)\<^sup>2
                                    + (expectation r)\<^sup>2 * (std_err c)\<^sup>2 / (expectation c) ^ 4)))\<rparr>"
proof -
  have "0 \<le> (std_err r)\<^sup>2 / (expectation c)\<^sup>2
          + (expectation r)\<^sup>2 * (std_err c)\<^sup>2 / (expectation c) ^ 4"
    by (intro add_nonneg_nonneg divide_nonneg_nonneg mult_nonneg_nonneg) simp_all
  then show ?thesis
    using assms
    by (simp add: correct_experiment_result_def ratio_variance_def py_truediv_def py_pow_def
        py_mul_def py_add_def np_sqrt_item_def Let_def not_less)
qed

text \<open>
  The variance of the ratio against the formula of section 4.1: equal for a raw
  expectation that is not zero; for a raw expectation of zero the root is \<open>|s_r / e_c|\<close>.
\<close>

lemma ratio_form:
  fixes e_r s_r e_c s_c :: real
  assumes "e_c \<noteq> 0" and "e_r \<noteq> 0"
  shows "sqrt (s_r\<^sup>2 / e_c\<^sup>2 + e_r\<^sup>2 * s_c\<^sup>2 / e_c ^ 4)
     = \<bar>e_r / e_c\<bar> * sqrt ((s_r / e_r)\<^sup>2 + (s_c / e_c)\<^sup>2)"
proof -
  have "s_r\<^sup>2 / e_c\<^sup>2 + e_r\<^sup>2 * s_c\<^sup>2 / e_c ^ 4
      = (e_r / e_c)\<^sup>2 * ((s_r / e_r)\<^sup>2 + (s_c / e_c)\<^sup>2)"
    using assms by (simp add: field_simps power2_eq_square power4_eq_xxxx)
  then show ?thesis
    by (simp add: real_sqrt_mult)
qed

lemma ratio_form_zero:
  fixes s_r e_c s_c :: real
  shows "sqrt (s_r\<^sup>2 / e_c\<^sup>2 + 0\<^sup>2 * s_c\<^sup>2 / e_c ^ 4) = \<bar>s_r / e_c\<bar>"
  by (simp add: real_sqrt_divide)


lemma sqrt_square_ratio: "sqrt ((3/100)\<^sup>2 / (1/2)\<^sup>2 + 0\<^sup>2 * (2/100)\<^sup>2 / (1/2) ^ 4) = 6/100"
  by (rule real_sqrt_unique) (simp_all add: power2_eq_square)

text \<open>
  C5, as stated: for \<open>e_c \<noteq> 0\<close> the correction returns \<open>e' = e_r / e_c\<close> and the standard error
  \<open>|e'| * sqrt ((s_r / e_r)\<^sup>2 + (s_c / e_c)\<^sup>2)\<close>, the first term under the root taken as
  \<open>0\<close> when \<open>e_r = 0\<close>. It fails for \<open>e_r = 0\<close>, \<open>s_r = 0.03\<close>, \<open>e_c = 0.5\<close>, \<open>s_c = 0.02\<close>: the
  correction returns the standard error \<open>0.06\<close>, the formula of the claim gives \<open>0\<close>.
\<close>

theorem zero_expectation_guard_counterexample:
  "correct_experiment_result np_kinds
     \<lparr>setting = setting_Z0Z1, expectation = 0, std_err = 3/100\<rparr> np_kinds
     \<lparr>setting = setting_Z0Z1, expectation = 1/2, std_err = 2/100\<rparr>
   = Inr \<lparr>c_setting = setting_Z0Z1, c_expectation = (NpFloat64, Finite 0),
          c_std_err = (PyFloat, Finite (6/100))\<rparr>
   \<and> \<bar>0 / (1/2)\<bar> * sqrt (0 + ((2/100) / (1/2))\<^sup>2) \<noteq> (6/100 :: real)"
proof -
  have "correct_experiment_result np_kinds
     \<lparr>setting = setting_Z0Z1, expectation = 0, std_err = 3/100\<rparr> np_kinds
     \<lparr>setting = setting_Z0Z1, expectation = 1/2, std_err = 2/100\<rparr>
   = Inr \<lparr>c_setting = setting_Z0Z1, c_expectation = (NpFloat64, Finite 0),
          c_std_err = (PyFloat, Finite (6/100))\<rparr>"
    using correct_experiment_result_finite
      [of "\<lparr>setting = setting_Z0Z1, expectation = 1/2, std_err = 2/100\<rparr>" np_kinds
          "\<lparr>setting = setting_Z0Z1, expectation = 0, std_err = 3/100\<rparr>" np_kinds]
      sqrt_square_ratio
    by (simp add: np_kinds_def join_kind_def)
  then show ?thesis by simp
qed

text \<open>
  C5, amended: for a raw result with expectation \<open>e_r\<close> and standard error \<open>s_r\<close> and a
  calibration result with expectation \<open>e_c \<noteq> 0\<close> and standard error \<open>s_c\<close>, the correction
  step returns the setting of the raw result, the corrected expectation
  \<open>e' = e_r / e_c\<close> and the corrected standard error
  \<open>sqrt ((s_r / e_c)\<^sup>2 + (e_r * s_c / e_c\<^sup>2)\<^sup>2)\<close>. For \<open>e_r \<noteq> 0\<close> this is
  \<open>|e'| * sqrt ((s_r / e_r)\<^sup>2 + (s_c / e_c)\<^sup>2)\<close>; for \<open>e_r = 0\<close> it is \<open>|s_r / e_c|\<close>: the first
  term is not taken as \<open>0\<close>. The result is a function of the two inputs alone.
\<close>

theorem correct_experiment_result_ratio:
  assumes "expectation c \<noteq> 0"
  shows "\<exists>r'. correct_experiment_result kr r kc c = Inr r'
    \<and> c_setting r' = setting r
    \<and> snd (c_expectation r') = Finite (expectation r / expectation c)
    \<and> snd (c_std_err r')
        = Finite (sqrt ((std_err r / expectation c)\<^sup>2
                        + (expectation r * std_err c / (expectation c)\<^sup>2)\<^sup>2))
    \<and> (expectation r \<noteq> 0 \<longrightarrow>
         snd (c_std_err r')
           = Finite (\<bar>expectation r / expectation c\<bar>
                     * sqrt ((std_err r / expectation r)\<^sup>2 + (std_err c / expectation c)\<^sup>2)))
    \<and> (expectation r = 0 \<longrightarrow> snd (c_std_err r') = Finite \<bar>std_err r / expectation c\<bar>)"
proof -
  let ?V = "(std_err r)\<^sup>2 / (expectation c)\<^sup>2
      + (expectation r)\<^sup>2 * (std_err c)\<^sup>2 / (expectation c) ^ 4"
  have V: "?V = (std_err r / expectation c)\<^sup>2
      + (expectation r * std_err c / (expectation c)\<^sup>2)\<^sup>2"
    by (simp add: power_divide power_mult_distrib)
  have nz: "sqrt ?V = \<bar>expectation r / expectation c\<bar>
      * sqrt ((std_err r / expectation r)\<^sup>2 + (std_err c / expectation c)\<^sup>2)"
    if "expectation r \<noteq> 0"
    by (rule ratio_form [OF assms that])
  have z: "sqrt ?V = \<bar>std_err r / expectation c\<bar>" if "expectation r = 0"
    using that ratio_form_zero [of "std_err r" "expectation c" "std_err c"] by simp
  show ?thesis
    unfolding correct_experiment_result_finite [OF assms]
    using V nz z by simp
qed

theorem correct_experiment_result_ratio_witness:
  "expectation \<lparr>setting = setting_Z0Z1, expectation = 1/2, std_err = 2/100\<rparr> \<noteq> 0
   \<and> (\<exists>r'. correct_experiment_result np_kinds
            \<lparr>setting = setting_Z0Z1, expectation = 1, std_err = 3/100\<rparr> np_kinds
            \<lparr>setting = setting_Z0Z1, expectation = 1/2, std_err = 2/100\<rparr> = Inr r'
      \<and> snd (c_expectation r') = Finite 2 \<and> snd (c_std_err r') = Finite (1/10))"
proof -
  have h: "expectation \<lparr>setting = setting_Z0Z1, expectation = 1/2, std_err = 2/100\<rparr> \<noteq> 0"
    by simp
  have "sqrt ((3/100)\<^sup>2 + (4/100)\<^sup>2) = 5/100"
    by (rule real_sqrt_unique) (simp_all add: power2_eq_square)
  then have root: "\<bar>1 / (1/2)\<bar> * sqrt ((3/100 / 1)\<^sup>2 + ((2/100) / (1/2))\<^sup>2) = (1/10 :: real)"
    by simp
  obtain r' where r': "correct_experiment_result np_kinds
        \<lparr>setting = setting_Z0Z1, expectation = 1, std_err = 3/100\<rparr> np_kinds
        \<lparr>setting = setting_Z0Z1, expectation = 1/2, std_err = 2/100\<rparr> = Inr r'"
      "snd (c_expectation r') = Finite (1 / (1/2))"
      "snd (c_std_err r')
         = Finite (\<bar>1 / (1/2)\<bar> * sqrt ((3/100 / 1)\<^sup>2 + ((2/100) / (1/2))\<^sup>2))"
    using correct_experiment_result_ratio [OF h, of np_kinds
        "\<lparr>setting = setting_Z0Z1, expectation = 1, std_err = 3/100\<rparr>" np_kinds]
    by auto
  have "snd (c_expectation r') = Finite 2" using r'(2) by simp
  moreover have "snd (c_std_err r') = Finite (1/10)" unfolding r'(3) root ..
  ultimately show ?thesis using r'(1) h by blast
qed

text \<open>
  C6, as stated: when the calibration expectation is exactly zero the correction step
  fails with a DivisionError and returns no value. It fails for results whose numbers
  are numpy numbers: nothing is raised, and a result is returned whose expectation and
  standard error are not finite.
\<close>

theorem zero_calibration_numpy_counterexample:
  "expectation \<lparr>setting = setting_Z0Z1, expectation = 0, std_err = 1/100\<rparr> = 0
   \<and> correct_experiment_result np_kinds
       \<lparr>setting = setting_Z0Z1, expectation = 3/4, std_err = 3/100\<rparr> np_kinds
       \<lparr>setting = setting_Z0Z1, expectation = 0, std_err = 1/100\<rparr>
     = Inr \<lparr>c_setting = setting_Z0Z1, c_expectation = (NpFloat64, NonFinite),
            c_std_err = (PyFloat, NonFinite)\<rparr>"
  by (simp add: correct_experiment_result_def ratio_variance_def py_truediv_def py_pow_def
      py_mul_def py_add_def np_sqrt_item_def np_kinds_def join_kind_def)

text \<open>
  C6, amended: the correction step has no guard of its own against a calibration
  expectation of zero. When the calibration expectation is exactly zero and is a
  Python float, and the raw expectation or the raw standard error is a Python float,
  the step fails with \<open>ZeroDivisionError\<close> (a DivisionError kind) and returns nothing. In
  every other case, so whenever the calibration expectation is a numpy number, nothing
  is raised (numpy warns) and the step returns a result whose expectation and standard
  error are not finite.
\<close>

theorem zero_calibration_division:
  assumes "expectation c = 0"
  shows "correct_experiment_result kr r kc c =
    (if expectation_kind kc = PyFloat \<and> (expectation_kind kr = PyFloat \<or> std_err_kind kr = PyFloat)
     then Inl ZeroDivisionError
     else Inr \<lparr>c_setting = setting r, c_expectation = (NpFloat64, NonFinite),
               c_std_err = (PyFloat, NonFinite)\<rparr>)"
  using assms
  by (cases "expectation_kind kc"; cases "expectation_kind kr"; cases "std_err_kind kr")
    (simp_all add: correct_experiment_result_def ratio_variance_def py_truediv_def py_pow_def
      py_mul_def py_add_def np_sqrt_item_def join_kind_def Let_def)

theorem zero_calibration_division_witness:
  "expectation \<lparr>setting = setting_Z0Z1, expectation = 0, std_err = 1/100\<rparr> = 0
   \<and> correct_experiment_result py_kinds
       \<lparr>setting = setting_Z0Z1, expectation = 3/4, std_err = 3/100\<rparr> py_kinds
       \<lparr>setting = setting_Z0Z1, expectation = 0, std_err = 1/100\<rparr>
     = Inl ZeroDivisionError"
  using zero_calibration_division
    [of "\<lparr>setting = setting_Z0Z1, expectation = 0, std_err = 1/100\<rparr>" py_kinds
        "\<lparr>setting = setting_Z0Z1, expectation = 3/4, std_err = 3/100\<rparr>" py_kinds]
  by (simp add: py_kinds_def)

text \<open>
  C8. For every raw result (its standard error is not negative), if the calibration
  result has expectation exactly \<open>1\<close> and standard error exactly \<open>0\<close>, the correction step
  returns the raw expectation and the raw standard error unchanged; this includes a
  raw expectation of \<open>0\<close>.
\<close>

theorem unit_calibration:
  assumes "expectation c = 1" and "std_err c = 0" and "0 \<le> std_err r"
  shows "\<exists>r'. correct_experiment_result kr r kc c = Inr r'
    \<and> c_setting r' = setting r
    \<and> snd (c_expectation r') = Finite (expectation r)
    \<and> snd (c_std_err r') = Finite (std_err r)"
proof -
  have "expectation c \<noteq> 0" using assms(1) by simp
  from correct_experiment_result_finite [OF this, of kr r kc] show ?thesis
    using assms by simp
qed

theorem unit_calibration_witness:
  "expectation \<lparr>setting = setting_Z0Z1, expectation = 1, std_err = 0\<rparr> = 1
   \<and> std_err \<lparr>setting = setting_Z0Z1, expectation = 1, std_err = 0\<rparr> = 0
   \<and> 0 \<le> std_err \<lparr>setting = setting_Z0Z1, expectation = 0, std_err = 1\<rparr>
   \<and> (\<exists>r'. correct_experiment_result np_kinds
            \<lparr>setting = setting_Z0Z1, expectation = 0, std_err = 1\<rparr> np_kinds
            \<lparr>setting = setting_Z0Z1, expectation = 1, std_err = 0\<rparr> = Inr r'
      \<and> c_setting r' = setting_Z0Z1
      \<and> snd (c_expectation r') = Finite 0
      \<and> snd (c_std_err r') = Finite 1)"
  using unit_calibration
    [of "\<lparr>setting = setting_Z0Z1, expectation = 1, std_err = 0\<rparr>"
        "\<lparr>setting = setting_Z0Z1, expectation = 0, std_err = 1\<rparr>" np_kinds np_kinds]
  by simp

text \<open>
  A result of the notebook: for X0X1 the raw result \<open>0.759 +- 0.014562470009115317\<close> with
  the calibration \<open>0.768 +- 0.01432447539345329\<close> gives the corrected expectation
  \<open>0.98828125\<close> that the notebook prints, exactly, and its printed standard error
  \<open>0.026444641002639036\<close> to within \<open>10^-12\<close>.
\<close>

lemma notebook_corrected_X0X1:
  "\<exists>r' v. correct_experiment_result np_kinds
          \<lparr>setting = setting_Z0Z1, expectation = 759 / 1000, std_err = 14562470009115317 / 10 ^ 18\<rparr>
          np_kinds
          \<lparr>setting = setting_Z0Z1, expectation = 768 / 1000, std_err = 1432447539345329 / 10 ^ 17\<rparr>
        = Inr r'
     \<and> snd (c_expectation r') = Finite (98828125 / 100000000)
     \<and> snd (c_std_err r') = Finite v
     \<and> \<bar>v - 26444641002639036 / 10 ^ 18\<bar> \<le> 1 / 10 ^ 12"
proof -
  let ?V = "(14562470009115317 / 10 ^ 18)\<^sup>2 / (768 / 1000)\<^sup>2
      + (759 / 1000)\<^sup>2 * (1432447539345329 / 10 ^ 17)\<^sup>2 / (768 / 1000) ^ 4 :: real"
  let ?p = "26444641002639036 / 10 ^ 18 :: real"
  define v where "v = sqrt ?V"
  have lo: "?p - 1 / 10 ^ 12 \<le> v"
    unfolding v_def by (rule real_le_rsqrt) (simp add: power2_eq_square power4_eq_xxxx)
  have hi: "v \<le> ?p + 1 / 10 ^ 12"
    unfolding v_def by (rule real_le_lsqrt) (simp_all add: power2_eq_square power4_eq_xxxx)
  have "\<bar>v - ?p\<bar> \<le> 1 / 10 ^ 12"
    using lo hi by linarith
  moreover have "correct_experiment_result np_kinds
          \<lparr>setting = setting_Z0Z1, expectation = 759 / 1000, std_err = 14562470009115317 / 10 ^ 18\<rparr>
          np_kinds
          \<lparr>setting = setting_Z0Z1, expectation = 768 / 1000, std_err = 1432447539345329 / 10 ^ 17\<rparr>
        = Inr \<lparr>c_setting = setting_Z0Z1,
               c_expectation = (NpFloat64, Finite (759 / 1000 / (768 / 1000))),
               c_std_err = (PyFloat, Finite v)\<rparr>"
    unfolding v_def
    using correct_experiment_result_finite
      [of "\<lparr>setting = setting_Z0Z1, expectation = 768 / 1000, std_err = 1432447539345329 / 10 ^ 17\<rparr>"
          np_kinds
          "\<lparr>setting = setting_Z0Z1, expectation = 759 / 1000, std_err = 14562470009115317 / 10 ^ 18\<rparr>"
          np_kinds]
    by (simp add: np_kinds_def join_kind_def)
  ultimately show ?thesis by simp
qed

section \<open>Properties of the settings generator\<close>

lemma length_label_tuples:
  "length (product_lists (replicate n [PauliI, PauliX, PauliY, PauliZ])) = 4 ^ n"
  by (induction n) (simp_all add: length_concat o_def)

lemma label_tuples_Cons:
  "\<exists>rest. product_lists (replicate n [PauliI, PauliX, PauliY, PauliZ]) = replicate n PauliI # rest"
  by (induction n) auto

lemma set_label_tuples:
  "set (product_lists (replicate n [PauliI, PauliX, PauliY, PauliZ])) = {ls. length ls = n}"
proof (induction n)
  case 0
  show ?case by simp
next
  case (Suc n)
  show ?case
  proof (rule set_eqI)
    fix ls :: "pauli list"
    show "ls \<in> set (product_lists (replicate (Suc n) [PauliI, PauliX, PauliY, PauliZ])) \<longleftrightarrow> ls \<in> {ls. length ls = Suc n}"
    proof (cases ls)
      case Nil
      then show ?thesis using Suc by auto
    next
      case (Cons p ps)
      then show ?thesis using Suc by (cases p) auto
    qed
  qed
qed

lemma distinct_label_tuples:
  "distinct (product_lists (replicate n [PauliI, PauliX, PauliY, PauliZ]))"
  by (rule distinct_product_lists) simp

lemma term_op_pauli_term_of:
  assumes "distinct qs" and "length ls = length qs" and "j < length qs"
  shows "term_op (pauli_term_of qs ls) (qs ! j) = ls ! j"
proof (cases "ls ! j = PauliI")
  case True
  have "map_of (filter (\<lambda>(q, p). p \<noteq> PauliI) (zip qs ls)) (qs ! j) \<noteq> Some p" if "p \<noteq> PauliI" for p
  proof
    assume "map_of (filter (\<lambda>(q, p). p \<noteq> PauliI) (zip qs ls)) (qs ! j) = Some p"
    then have "(qs ! j, p) \<in> set (zip qs ls)"
      by (auto dest: map_of_SomeD)
    then obtain k where k: "k < length qs" "qs ! k = qs ! j" "ls ! k = p"
      using assms(2) by (auto simp: in_set_zip)
    then have "k = j" using assms(1,3) by (simp add: nth_eq_iff_index_eq)
    with k True that show False by simp
  qed
  then show ?thesis
    using True by (auto simp: term_op_def pauli_term_of_def split: option.splits)
next
  case False
  have d: "distinct (map fst (filter (\<lambda>(q, p). p \<noteq> PauliI) (zip qs ls)))"
    using assms(1,2) by (simp add: distinct_map_filter)
  have "(qs ! j, ls ! j) \<in> set (filter (\<lambda>(q, p). p \<noteq> PauliI) (zip qs ls))"
    using False assms(2,3) by (auto simp: in_set_zip)
  then have "map_of (filter (\<lambda>(q, p). p \<noteq> PauliI) (zip qs ls)) (qs ! j) = Some (ls ! j)"
    using d by simp
  then show ?thesis by (simp add: term_op_def pauli_term_of_def)
qed

lemma pauli_term_of_labels:
  assumes "distinct qs" and "length ls = length qs"
  shows "map (term_op (pauli_term_of qs ls)) qs = ls"
  using assms by (intro nth_equalityI) (simp_all add: term_op_pauli_term_of)

lemma inj_pauli_term_of:
  assumes "distinct qs"
  shows "inj_on (pauli_term_of qs) {ls. length ls = length qs}"
proof (rule inj_onI)
  fix ls ls'
  assume l: "ls \<in> {ls. length ls = length qs}" and l': "ls' \<in> {ls. length ls = length qs}"
    and eq: "pauli_term_of qs ls = pauli_term_of qs ls'"
  have "ls = map (term_op (pauli_term_of qs ls)) qs"
    using assms l pauli_term_of_labels [of qs ls] by simp
  also have "\<dots> = map (term_op (pauli_term_of qs ls')) qs"
    by (simp only: eq)
  also have "\<dots> = ls'"
    using assms l' pauli_term_of_labels [of qs ls'] by simp
  finally show "ls = ls'" .
qed

lemma length_all_traceless_pauli_terms:
  "length (all_traceless_pauli_terms qs) = 4 ^ length qs - 1"
  by (simp add: all_traceless_pauli_terms_def length_label_tuples)

lemma set_all_traceless_pauli_terms:
  assumes "distinct qs"
  shows "set (all_traceless_pauli_terms qs) =
     {pauli_term_of qs ls | ls. length ls = length qs \<and> ls \<noteq> replicate (length qs) PauliI}"
    and "distinct (all_traceless_pauli_terms qs)"
proof -
  let ?n = "length qs"
  let ?L = "product_lists (replicate ?n [PauliI, PauliX, PauliY, PauliZ])"
  obtain rest where rest: "?L = replicate ?n PauliI # rest"
    using label_tuples_Cons by blast
  have d: "distinct ?L" by (rule distinct_label_tuples)
  have s: "set ?L = {ls. length ls = ?n}" by (rule set_label_tuples)
  have rest_set: "set rest = {ls. length ls = ?n \<and> ls \<noteq> replicate ?n PauliI}"
    using d s unfolding rest by auto
  have eq: "all_traceless_pauli_terms qs = map (pauli_term_of qs) rest"
    by (simp add: all_traceless_pauli_terms_def rest)
  show "set (all_traceless_pauli_terms qs) =
     {pauli_term_of qs ls | ls. length ls = length qs \<and> ls \<noteq> replicate (length qs) PauliI}"
    unfolding eq using rest_set by auto
  have "inj_on (pauli_term_of qs) (set rest)"
    using inj_pauli_term_of [OF assms] rest_set by (auto intro: inj_on_subset)
  moreover have "distinct rest" using d unfolding rest by simp
  ultimately show "distinct (all_traceless_pauli_terms qs)"
    unfolding eq by (simp add: distinct_map)
qed

text \<open>
  C9. For a list of \<open>n\<close> distinct qubits the settings generator yields exactly
  \<open>4^n - 1\<close> settings. Every setting has the all-zeros state on these qubits as input
  state. The observables of the settings are pairwise different, and they are exactly
  the Pauli terms \<open>pauli_term_of qs ls\<close> for the label tuples \<open>ls\<close> of length \<open>n\<close> that are
  not all identity: one setting per non-identity Pauli tensor product.
\<close>

theorem state_tomo_settings_enumeration:
  assumes "distinct qs"
  shows "length (state_tomo_settings qs) = 4 ^ length qs - 1
    \<and> list_all (\<lambda>s. in_state s = zeros_state qs) (state_tomo_settings qs)
    \<and> distinct (map out_operator (state_tomo_settings qs))
    \<and> set (map out_operator (state_tomo_settings qs)) =
        {pauli_term_of qs ls | ls. length ls = length qs \<and> ls \<noteq> replicate (length qs) PauliI}"
proof -
  have m: "map out_operator (state_tomo_settings qs) = all_traceless_pauli_terms qs"
    by (simp add: state_tomo_settings_def o_def)
  have "length (state_tomo_settings qs) = 4 ^ length qs - 1"
    by (simp add: state_tomo_settings_def length_all_traceless_pauli_terms)
  moreover have "list_all (\<lambda>s. in_state s = zeros_state qs) (state_tomo_settings qs)"
    by (simp add: state_tomo_settings_def list_all_iff)
  ultimately show ?thesis
    unfolding m using set_all_traceless_pauli_terms [OF assms] by simp
qed

text \<open>The settings that the notebook prints for the qubits \<open>(0, 1)\<close>, in its order.\<close>

lemma notebook_settings:
  "map ops (all_traceless_pauli_terms [0, 1]) = 
   [[(1, PauliX)], [(1, PauliY)], [(1, PauliZ)], [(0, PauliX)],
  [(0, PauliX), (1, PauliX)], [(0, PauliX), (1, PauliY)],
  [(0, PauliX), (1, PauliZ)], [(0, PauliY)], [(0, PauliY), (1, PauliX)],
  [(0, PauliY), (1, PauliY)], [(0, PauliY), (1, PauliZ)], [(0, PauliZ)],
  [(0, PauliZ), (1, PauliX)], [(0, PauliZ), (1, PauliY)],
  [(0, PauliZ), (1, PauliZ)]]"
  by (simp add: all_traceless_pauli_terms_def pauli_term_of_def numeral_2_eq_2)

theorem state_tomo_settings_enumeration_witness:
  "distinct [0::nat] \<and> length (state_tomo_settings [0]) = 4 ^ length [0::nat] - 1
    \<and> list_all (\<lambda>s. in_state s = zeros_state [0]) (state_tomo_settings [0])
    \<and> distinct (map out_operator (state_tomo_settings [0]))
    \<and> state_tomo_settings [0] =
       [\<lparr>in_state = [(PauliZ, 0, 0)], out_operator = \<lparr>ops = [(0, PauliX)], coefficient = 1\<rparr>\<rparr>,
        \<lparr>in_state = [(PauliZ, 0, 0)], out_operator = \<lparr>ops = [(0, PauliY)], coefficient = 1\<rparr>\<rparr>,
        \<lparr>in_state = [(PauliZ, 0, 0)], out_operator = \<lparr>ops = [(0, PauliZ)], coefficient = 1\<rparr>\<rparr>]"
proof -
  have "state_tomo_settings [0] =
       [\<lparr>in_state = [(PauliZ, 0, 0)], out_operator = \<lparr>ops = [(0, PauliX)], coefficient = 1\<rparr>\<rparr>,
        \<lparr>in_state = [(PauliZ, 0, 0)], out_operator = \<lparr>ops = [(0, PauliY)], coefficient = 1\<rparr>\<rparr>,
        \<lparr>in_state = [(PauliZ, 0, 0)], out_operator = \<lparr>ops = [(0, PauliZ)], coefficient = 1\<rparr>\<rparr>]"
    by (simp add: state_tomo_settings_def all_traceless_pauli_terms_def pauli_term_of_def zeros_state_def)
  then show ?thesis
    using state_tomo_settings_enumeration [of "[0]"] by simp
qed

section \<open>Shapes and entries of arrays\<close>

lemma length_mat_of [simp]: "length (mat_of r c f) = r"
  by (simp add: mat_of_def)

lemma mat_of_row [simp]: "i < r \<Longrightarrow> mat_of r c f ! i = map (f i) [0..<c]"
  by (simp add: mat_of_def)

lemma mat_of_nth: "i < r \<Longrightarrow> j < c \<Longrightarrow> mat_of r c f ! i ! j = f i j"
  by simp

lemma is_mat_mat_of [simp]: "is_mat r c (mat_of r c f)"
  by (simp add: is_mat_def mat_of_def list_all_iff)

lemma is_mat_length: "is_mat r c A \<Longrightarrow> length A = r"
  by (simp add: is_mat_def)

lemma is_mat_row: "is_mat r c A \<Longrightarrow> i < r \<Longrightarrow> length (A ! i) = c"
  by (auto simp: is_mat_def list_all_iff)

lemma is_mat_nrows: "is_mat r c A \<Longrightarrow> nrows A = r"
  by (simp add: is_mat_def nrows_def)

lemma is_mat_ncols: "is_mat r c A \<Longrightarrow> 0 < r \<Longrightarrow> ncols A = c"
  by (cases A) (auto simp: is_mat_def ncols_def)

lemma mat_eqI:
  assumes "is_mat r c A" and "is_mat r c B"
    and "\<And>i j. i < r \<Longrightarrow> j < c \<Longrightarrow> A ! i ! j = B ! i ! j"
  shows "A = B"
proof (rule nth_equalityI)
  show "length A = length B"
    using assms(1,2) by (simp add: is_mat_length)
next
  fix i assume "i < length A"
  then have i: "i < r" using assms(1) by (simp add: is_mat_length)
  show "A ! i = B ! i"
    using assms i by (intro nth_equalityI) (simp_all add: is_mat_row)
qed

lemma mat_of_eq:
  assumes "is_mat r c A"
  shows "mat_of r c (\<lambda>i j. A ! i ! j) = A"
  using assms by (intro mat_eqI [of r c]) simp_all

lemma sum_list_upt: "sum_list (map f [0..<n]) = (\<Sum>k<n. f k)"
  by (simp add: interv_sum_list_conv_sum_set_nat lessThan_atLeast0)

lemma is_mat_gate_matrix [simp]: "is_mat 2 2 (gate_matrix p)"
  by (cases p) (simp_all add: is_mat_def)

lemma is_mat_kron:
  assumes "is_mat r c A" and "is_mat r' c' B" and "0 < r" and "0 < r'"
  shows "is_mat (r * r') (c * c') (kron A B)"
  using assms by (simp add: kron_def is_mat_nrows is_mat_ncols)

lemma kron_nth:
  assumes "is_mat r c A" and "is_mat r' c' B" and "0 < r" and "0 < r'"
    and "i < r * r'" and "j < c * c'"
  shows "kron A B ! i ! j = A ! (i div r') ! (j div c') * B ! (i mod r') ! (j mod c')"
  using assms by (simp add: kron_def is_mat_nrows is_mat_ncols)

lemma is_mat_foldl_kron:
  assumes "is_mat d d B" and "0 < d"
  shows "is_mat (2 ^ length qs * d) (2 ^ length qs * d)
           (foldl (\<lambda>term_hilbert qubit. kron (gate_matrix (term_op t qubit)) term_hilbert) B qs)"
  using assms
proof (induction qs arbitrary: B d)
  case Nil
  then show ?case by simp
next
  case (Cons q qs)
  have "is_mat (2 * d) (2 * d) (kron (gate_matrix (term_op t q)) B)"
    using is_mat_kron [OF is_mat_gate_matrix Cons.prems(1) _ Cons.prems(2)] by simp
  from Cons.IH [OF this] Cons.prems(2) show ?case
    by (simp add: mult.assoc mult.left_commute)
qed

lemma is_mat_mat_scale [simp]: "is_mat r c (mat_scale A x) = is_mat r c A"
  by (simp add: is_mat_def mat_scale_def list_all_iff)

lemma is_mat_mat_div [simp]: "is_mat r c (mat_div A x) = is_mat r c A"
  by (simp add: is_mat_def mat_div_def list_all_iff)

lemma is_mat_lifted_pauli: "is_mat (2 ^ length qs) (2 ^ length qs) (lifted_pauli t qs)"
proof -
  have "is_mat 1 1 [[1]]" by (simp add: is_mat_def)
  from is_mat_foldl_kron [OF this, of qs t] show ?thesis
    by (simp add: lifted_pauli_def)
qed

lemma vec_eq:
  assumes "is_mat d d A" and "0 < d"
  shows "vec A = map (\<lambda>k. [A ! (k mod d) ! (k div d)]) [0..<d * d]"
  using assms by (simp add: vec_def is_mat_nrows is_mat_ncols)

lemma herm_vec:
  assumes "is_mat d d A" and "0 < d"
  shows "herm (vec A) = [map (\<lambda>k. cnj (A ! (k mod d) ! (k div d))) [0..<d * d]]"
proof -
  have v: "is_mat (d * d) 1 (vec A)"
    unfolding vec_eq [OF assms] by (simp add: is_mat_def list_all_iff)
  have "0 < d * d" using assms(2) by simp
  then have "ncols (vec A) = 1" "nrows (vec A) = d * d"
    using v by (simp_all add: is_mat_ncols is_mat_nrows)
  then show ?thesis
    by (simp add: herm_def mat_of_def vec_eq [OF assms])
qed

lemma measurement_matrix_Nil: "measurement_matrix [] qs = Inl ValueError"
  by (simp add: measurement_matrix_def vstack_def)

lemma measurement_matrix_run:
  assumes "results \<noteq> []"
  shows "measurement_matrix results qs =
    Inr (map (\<lambda>result. obs_row (2 ^ length qs) (lifted_pauli (out_operator (setting result)) qs)) results)"
proof -
  let ?d = "2 ^ length qs :: nat"
  let ?O = "\<lambda>result. lifted_pauli (out_operator (setting result)) qs"
  have h: "herm (vec (?O r)) = [obs_row ?d (?O r)]" for r
    using herm_vec [OF is_mat_lifted_pauli, of qs] by (simp add: obs_row_def)
  have c: "ncols [obs_row ?d A] = ?d * ?d" for A
    by (simp add: ncols_def obs_row_def)
  obtain r rs where rs: "results = r # rs"
    using assms by (cases results) auto
  show ?thesis
    by (simp add: measurement_matrix_def vstack_def h c rs list_all_iff)
qed

section \<open>Vectorization and its inverse\<close>

lemma concat_blocks:
  "concat (map (\<lambda>j. map (f j) [0..<r]) [0..<c]) = map (\<lambda>k. f (k div r) (k mod r)) [0..<c * r]"
proof (induction c)
  case 0
  show ?case by simp
next
  case (Suc c)
  have "[0..<c * r + r] = [0..<c * r] @ [c * r..<c * r + r]"
    by (rule upt_add_eq_append) simp
  then have "[0..<Suc c * r] = [0..<c * r] @ map (\<lambda>i. i + c * r) [0..<r]"
    by (simp add: map_add_upt add.commute)
  then have "map (\<lambda>k. f (k div r) (k mod r)) [0..<Suc c * r]
      = map (\<lambda>k. f (k div r) (k mod r)) [0..<c * r] @ map (\<lambda>i. f ((i + c * r) div r) ((i + c * r) mod r)) [0..<r]"
    by (simp add: o_def)
  also have "map (\<lambda>i. f ((i + c * r) div r) ((i + c * r) mod r)) [0..<r] = map (f c) [0..<r]"
    by (rule map_cong) simp_all
  finally show ?case using Suc by simp
qed

lemma spec_vec_eq:
  assumes "is_mat d d A" and "0 < d"
  shows "spec_vec A = map (\<lambda>k. A ! (k mod d) ! (k div d)) [0..<d * d]"
  using assms by (simp add: spec_vec_def is_mat_nrows is_mat_ncols concat_blocks)

lemma obs_row_spec:
  assumes "is_mat d d A" and "0 < d"
  shows "obs_row d A = map cnj (spec_vec A)"
  by (simp add: spec_vec_eq [OF assms] obs_row_def)

lemma block_index_less:
  fixes i j d :: nat
  assumes "i < d" and "j < d"
  shows "j * d + i < d * d"
proof -
  have "j * d + i < Suc j * d" using assms(1) by simp
  also have "\<dots> \<le> d * d" using assms(2) by (intro mult_le_mono1) simp
  finally show ?thesis .
qed

lemma spec_unvec_nth:
  assumes "length v = d * d" and "i < d" and "j < d"
  shows "spec_unvec d v ! i ! j = v ! (j * d + i)"
proof -
  have "j * d + i < length v"
    using block_index_less [OF assms(2,3)] assms(1) by simp
  then show ?thesis
    using assms by (simp add: spec_unvec_def)
qed

lemma isqrt_square: "isqrt (d * d) = d"
proof -
  have "{k. k * k \<le> d * d} \<inter> set [1..<Suc (d * d)] = {1..d}"
  proof (rule set_eqI)
    fix k
    have "k * k \<le> d * d \<longleftrightarrow> k \<le> d"
      using power2_nat_le_eq_le [of k d] by (simp add: power2_eq_square)
    moreover have "k \<le> d \<Longrightarrow> k \<le> d * d"
      by (cases d) auto
    ultimately show "k \<in> {k. k * k \<le> d * d} \<inter> set [1..<Suc (d * d)] \<longleftrightarrow> k \<in> {1..d}"
      by auto
  qed
  then show ?thesis
    by (simp add: isqrt_def distinct_length_filter del: upt_Suc)
qed

lemma unvec_run:
  assumes "length v = d * d"
  shows "unvec v = Inr (mat_of d d (\<lambda>i j. v ! (j * d + i)))"
  using assms by (simp add: unvec_def isqrt_square)

lemma unvec_spec:
  assumes "length v = d * d"
  shows "unvec v = Inr (spec_unvec d v)"
proof -
  have "mat_of d d (\<lambda>i j. v ! (j * d + i)) = spec_unvec d v"
  proof (rule mat_eqI [of d d])
    fix i j assume "i < d" "j < d"
    then show "mat_of d d (\<lambda>i j. v ! (j * d + i)) ! i ! j = spec_unvec d v ! i ! j"
      by (simp add: spec_unvec_nth [OF assms])
  qed (simp_all add: spec_unvec_def)
  then show ?thesis by (simp add: unvec_run [OF assms])
qed

lemma spec_unvec_vec:
  assumes "is_mat d d A"
  shows "spec_unvec d (spec_vec A) = A"
proof (cases "d = 0")
  case True
  then show ?thesis using assms by (simp add: spec_unvec_def mat_of_def is_mat_def)
next
  case False
  then have d: "0 < d" by simp
  have len: "length (spec_vec A) = d * d"
    by (simp add: spec_vec_eq [OF assms d])
  show ?thesis
  proof (rule mat_eqI [of d d])
    show "is_mat d d (spec_unvec d (spec_vec A))" by (simp add: spec_unvec_def)
    show "is_mat d d A" by (rule assms)
  next
    fix i j assume ij: "i < d" "j < d"
    have "j * d + i < d * d"
      using ij by (rule block_index_less)
    then have "spec_vec A ! (j * d + i) = A ! i ! j"
      using ij by (simp add: spec_vec_eq [OF assms d])
    then show "spec_unvec d (spec_vec A) ! i ! j = A ! i ! j"
      by (simp add: spec_unvec_nth [OF len ij])
  qed
qed

section \<open>The estimator computes the expression of the specification\<close>

lemma mat_of_cong:
  assumes "\<And>i j. i < r \<Longrightarrow> j < c \<Longrightarrow> f i j = g i j"
  shows "mat_of r c f = mat_of r c g"
  using assms by (simp add: mat_of_def)

lemma mat_vec_run:
  assumes "is_mat r c P" and "length y = c"
  shows "mat_vec P y = Inr (map (\<lambda>row. dot row y) P)"
  using assms by (simp add: mat_vec_def is_mat_def)

lemma mat_add_run:
  assumes "is_mat r c A" and "is_mat r c B"
  shows "mat_add A B = Inr (mat_of r c (\<lambda>i j. A ! i ! j + B ! i ! j))"
proof -
  have shape: "map length A = map length B"
    using assms by (intro nth_equalityI) (simp_all add: is_mat_length is_mat_row)
  have "map2 (map2 (+)) A B = mat_of r c (\<lambda>i j. A ! i ! j + B ! i ! j)"
  proof (rule mat_eqI [of r c])
    show "is_mat r c (map2 (map2 (+)) A B)"
      using assms by (auto simp: is_mat_def list_all_iff in_set_zip)
  next
    fix i j assume "i < r" "j < c"
    then show "map2 (map2 (+)) A B ! i ! j = mat_of r c (\<lambda>i j. A ! i ! j + B ! i ! j) ! i ! j"
      using assms by (simp add: is_mat_length is_mat_row)
  qed simp
  then show ?thesis by (simp add: mat_add_def shape)
qed

lemma eye_div_nth:
  assumes "i < d" and "j < d"
  shows "mat_div (eye d) x ! i ! j = (if i = j then 1 / x else 0)"
  using assms by (simp add: mat_div_def eye_def mat_of_def)

lemma is_mat_spec_measurement_matrix:
  "is_mat (length results) (2 ^ length qs * 2 ^ length qs) (spec_measurement_matrix results qs)"
proof -
  have "length (spec_vec (lifted_pauli t qs)) = 2 ^ length qs * 2 ^ length qs" for t
    using spec_vec_eq [OF is_mat_lifted_pauli, of qs t] by simp
  then show ?thesis
    by (simp add: spec_measurement_matrix_def is_mat_def list_all_iff)
qed

lemma measurement_matrix_spec:
  assumes "results \<noteq> []"
  shows "measurement_matrix results qs = Inr (spec_measurement_matrix results qs)"
proof -
  have "obs_row (2 ^ length qs) (lifted_pauli t qs) = map cnj (spec_vec (lifted_pauli t qs))" for t
    by (rule obs_row_spec [OF is_mat_lifted_pauli]) simp
  then show ?thesis
    by (simp add: measurement_matrix_run [OF assms] spec_measurement_matrix_def)
qed

lemma estimate_run:
  assumes "results \<noteq> []"
    and "pinv_shape (spec_measurement_matrix results qs) (pinv (spec_measurement_matrix results qs))"
  shows "linear_inv_state_estimate pinv results qs = Inr (spec_estimate pinv results qs)"
proof -
  let ?d = "2 ^ length qs :: nat"
  let ?M = "spec_measurement_matrix results qs"
  let ?y = "expectations results"
  let ?rho = "map (\<lambda>row. dot row ?y) (pinv ?M)"
  have M: "is_mat (length results) (?d * ?d) ?M"
    by (rule is_mat_spec_measurement_matrix)
  have m: "0 < length results" using assms(1) by simp
  have P: "is_mat (?d * ?d) (length results) (pinv ?M)"
    using assms(2) by (simp add: pinv_shape_def is_mat_ncols [OF M m] is_mat_nrows [OF M])
  have mv: "mat_vec (pinv ?M) ?y = Inr ?rho"
    by (rule mat_vec_run [OF P]) (simp add: expectations_def)
  have len: "length ?rho = ?d * ?d"
    using P by (simp add: is_mat_length)
  have un: "unvec ?rho = Inr (spec_unvec ?d ?rho)"
    by (rule unvec_spec [OF len])
  have "mat_add (spec_unvec ?d ?rho) (mat_div (eye ?d) (of_nat ?d))
      = Inr (mat_of ?d ?d (\<lambda>i j. spec_unvec ?d ?rho ! i ! j + mat_div (eye ?d) (of_nat ?d) ! i ! j))"
    by (rule mat_add_run) (simp_all add: spec_unvec_def eye_def)
  also have "mat_of ?d ?d (\<lambda>i j. spec_unvec ?d ?rho ! i ! j + mat_div (eye ?d) (of_nat ?d) ! i ! j)
      = spec_estimate pinv results qs"
    unfolding spec_estimate_def Let_def
    by (rule mat_of_cong) (simp add: eye_div_nth)
  finally show ?thesis
    by (simp add: linear_inv_state_estimate_def measurement_matrix_spec [OF assms(1)] mv un Let_def)
qed

lemma estimate_Nil: "linear_inv_state_estimate pinv [] qs = Inl ValueError"
  by (simp add: linear_inv_state_estimate_def measurement_matrix_Nil)

section \<open>Consequences of the Penrose equations\<close>

lemma dot_sum: "dot u v = (\<Sum>k<length u. u ! k * v ! k)"
  by (simp add: dot_def sum_list_upt)

lemma mat_mul_eq:
  assumes "is_mat r k A" and "is_mat k c B" and "0 < k"
  shows "mat_mul A B = mat_of r c (\<lambda>i j. \<Sum>l<k. A ! i ! l * B ! l ! j)"
  using assms by (simp add: mat_mul_def is_mat_nrows is_mat_ncols sum_list_upt)

lemma herm_eq:
  assumes "is_mat r c A" and "0 < r"
  shows "herm A = mat_of c r (\<lambda>i j. cnj (A ! j ! i))"
  using assms by (simp add: herm_def is_mat_nrows is_mat_ncols)

text \<open>The Penrose equations, entry by entry.\<close>

lemma penrose_PAP:
  assumes A: "is_mat m n A" and P: "is_mat n m P" and m: "0 < m" and n: "0 < n"
    and eq: "mat_mul (mat_mul P A) P = P"
    and k: "k < n" and i: "i < m"
  shows "(\<Sum>a<n. (\<Sum>b<m. P ! k ! b * A ! b ! a) * P ! a ! i) = P ! k ! i"
proof -
  have PA: "mat_mul P A = mat_of n n (\<lambda>i j. \<Sum>b<m. P ! i ! b * A ! b ! j)"
    by (rule mat_mul_eq [OF P A m])
  have h: "mat_mul (mat_mul P A) P = mat_of n m (\<lambda>i j. \<Sum>a<n. mat_mul P A ! i ! a * P ! a ! j)"
    by (rule mat_mul_eq [OF _ P n]) (simp add: PA)
  have "P ! k ! i = mat_mul (mat_mul P A) P ! k ! i"
    by (simp only: eq)
  also have "\<dots> = (\<Sum>a<n. mat_mul P A ! k ! a * P ! a ! i)"
    unfolding h using k i by (rule mat_of_nth)
  also have "\<dots> = (\<Sum>a<n. (\<Sum>b<m. P ! k ! b * A ! b ! a) * P ! a ! i)"
    by (rule sum.cong) (simp_all add: PA k)
  finally show ?thesis by simp
qed

lemma penrose_APA:
  assumes A: "is_mat m n A" and P: "is_mat n m P" and m: "0 < m" and n: "0 < n"
    and eq: "mat_mul (mat_mul A P) A = A"
    and i: "i < m" and k: "k < n"
  shows "(\<Sum>a<m. (\<Sum>b<n. A ! i ! b * P ! b ! a) * A ! a ! k) = A ! i ! k"
proof -
  have AP: "mat_mul A P = mat_of m m (\<lambda>i j. \<Sum>b<n. A ! i ! b * P ! b ! j)"
    by (rule mat_mul_eq [OF A P n])
  have h: "mat_mul (mat_mul A P) A = mat_of m n (\<lambda>i j. \<Sum>a<m. mat_mul A P ! i ! a * A ! a ! j)"
    by (rule mat_mul_eq [OF _ A m]) (simp add: AP)
  have "A ! i ! k = mat_mul (mat_mul A P) A ! i ! k"
    by (simp only: eq)
  also have "\<dots> = (\<Sum>a<m. mat_mul A P ! i ! a * A ! a ! k)"
    unfolding h using i k by (rule mat_of_nth)
  also have "\<dots> = (\<Sum>a<m. (\<Sum>b<n. A ! i ! b * P ! b ! a) * A ! a ! k)"
    by (rule sum.cong) (simp_all add: AP i)
  finally show ?thesis by simp
qed

lemma penrose_PA_herm:
  assumes A: "is_mat m n A" and P: "is_mat n m P" and m: "0 < m" and n: "0 < n"
    and eq: "herm (mat_mul P A) = mat_mul P A"
    and k: "k < n" and a: "a < n"
  shows "(\<Sum>b<m. P ! k ! b * A ! b ! a) = cnj (\<Sum>b<m. P ! a ! b * A ! b ! k)"
proof -
  have PA: "mat_mul P A = mat_of n n (\<lambda>i j. \<Sum>b<m. P ! i ! b * A ! b ! j)"
    by (rule mat_mul_eq [OF P A m])
  have h: "herm (mat_mul P A) = mat_of n n (\<lambda>i j. cnj (mat_mul P A ! j ! i))"
    by (rule herm_eq [OF _ n]) (simp add: PA)
  have "mat_mul P A ! k ! a = herm (mat_mul P A) ! k ! a"
    by (simp only: eq)
  also have "\<dots> = cnj (mat_mul P A ! a ! k)"
    unfolding h using k a by (rule mat_of_nth)
  finally have "mat_mul P A ! k ! a = cnj (mat_mul P A ! a ! k)" .
  then show ?thesis
    using k a by (simp add: PA)
qed

lemma pinv_entry_range:
  assumes A: "is_mat m n A" and P: "is_mat n m P" and m: "0 < m" and n: "0 < n"
    and PAP: "mat_mul (mat_mul P A) P = P"
    and PAh: "herm (mat_mul P A) = mat_mul P A"
    and k: "k < n" and i: "i < m"
  shows "P ! k ! i = (\<Sum>b<m. cnj (A ! b ! k) * (\<Sum>a<n. cnj (P ! a ! b) * P ! a ! i))"
proof -
  have "P ! k ! i = (\<Sum>a<n. (\<Sum>b<m. P ! k ! b * A ! b ! a) * P ! a ! i)"
    by (rule penrose_PAP [OF A P m n PAP k i, symmetric])
  also have "\<dots> = (\<Sum>a<n. cnj (\<Sum>b<m. P ! a ! b * A ! b ! k) * P ! a ! i)"
    by (rule sum.cong) (simp_all add: penrose_PA_herm [OF A P m n PAh k])
  also have "\<dots> = (\<Sum>a<n. \<Sum>b<m. cnj (A ! b ! k) * (cnj (P ! a ! b) * P ! a ! i))"
    by (simp add: sum_distrib_right sum_distrib_left mult_ac)
  also have "\<dots> = (\<Sum>b<m. \<Sum>a<n. cnj (A ! b ! k) * (cnj (P ! a ! b) * P ! a ! i))"
    by (rule sum.swap)
  also have "\<dots> = (\<Sum>b<m. cnj (A ! b ! k) * (\<Sum>a<n. cnj (P ! a ! b) * P ! a ! i))"
    by (simp add: sum_distrib_left)
  finally show ?thesis .
qed

lemma pinv_apply_range:
  assumes A: "is_mat m n A" and P: "is_mat n m P" and m: "0 < m" and n: "0 < n"
    and PAP: "mat_mul (mat_mul P A) P = P"
    and PAh: "herm (mat_mul P A) = mat_mul P A"
    and k: "k < n" and y: "length y = m"
  shows "dot (P ! k) y = (\<Sum>b<m. cnj (A ! b ! k) * gram_vec P y n m b)"
proof -
  have "dot (P ! k) y = (\<Sum>i<m. P ! k ! i * y ! i)"
    using is_mat_row [OF P k] by (simp add: dot_sum)
  also have "\<dots> = (\<Sum>i<m. (\<Sum>b<m. cnj (A ! b ! k) * (\<Sum>a<n. cnj (P ! a ! b) * P ! a ! i)) * y ! i)"
    by (rule sum.cong) (simp_all add: pinv_entry_range [OF A P m n PAP PAh k])
  also have "\<dots> = (\<Sum>i<m. \<Sum>b<m. cnj (A ! b ! k) * ((\<Sum>a<n. cnj (P ! a ! b) * P ! a ! i) * y ! i))"
    by (simp add: sum_distrib_right mult.assoc)
  also have "\<dots> = (\<Sum>b<m. \<Sum>i<m. cnj (A ! b ! k) * ((\<Sum>a<n. cnj (P ! a ! b) * P ! a ! i) * y ! i))"
    by (rule sum.swap)
  also have "\<dots> = (\<Sum>b<m. cnj (A ! b ! k) * gram_vec P y n m b)"
    by (simp add: sum_distrib_left gram_vec_def)
  finally show ?thesis .
qed

text \<open>Matrices whose rows are orthogonal and of the same squared norm \<open>c\<close>.\<close>

lemma orthogonal_rows_AP:
  assumes A: "is_mat m n A" and P: "is_mat n m P" and m: "0 < m" and n: "0 < n"
    and APA: "mat_mul (mat_mul A P) A = A"
    and orth: "\<And>i j. i < m \<Longrightarrow> j < m \<Longrightarrow> (\<Sum>k<n. A ! i ! k * cnj (A ! j ! k)) = (if i = j then c else 0)"
    and c: "c \<noteq> 0"
    and i: "i < m" and j: "j < m"
  shows "(\<Sum>b<n. A ! i ! b * P ! b ! j) = (if i = j then 1 else 0)"
proof -
  let ?AP = "\<lambda>i a. \<Sum>b<n. A ! i ! b * P ! b ! a"
  have "(\<Sum>k<n. (\<Sum>a<m. ?AP i a * A ! a ! k) * cnj (A ! j ! k)) = (\<Sum>k<n. A ! i ! k * cnj (A ! j ! k))"
    by (rule sum.cong) (simp_all add: penrose_APA [OF A P m n APA i])
  also have "\<dots> = (if i = j then c else 0)"
    by (rule orth [OF i j])
  finally have rhs: "(\<Sum>k<n. (\<Sum>a<m. ?AP i a * A ! a ! k) * cnj (A ! j ! k)) = (if i = j then c else 0)" .
  have "(\<Sum>k<n. (\<Sum>a<m. ?AP i a * A ! a ! k) * cnj (A ! j ! k))
      = (\<Sum>k<n. \<Sum>a<m. ?AP i a * (A ! a ! k * cnj (A ! j ! k)))"
    by (simp add: sum_distrib_right mult.assoc)
  also have "\<dots> = (\<Sum>a<m. \<Sum>k<n. ?AP i a * (A ! a ! k * cnj (A ! j ! k)))"
    by (rule sum.swap)
  also have "\<dots> = (\<Sum>a<m. ?AP i a * (\<Sum>k<n. A ! a ! k * cnj (A ! j ! k)))"
    by (simp add: sum_distrib_left)
  also have "\<dots> = (\<Sum>a<m. ?AP i a * (if a = j then c else 0))"
    by (rule sum.cong) (simp_all add: orth j)
  also have "\<dots> = ?AP i j * c"
    using j by (simp add: sum.delta' if_distrib [of "\<lambda>x. _ * x"] cong: if_cong)
  finally have "?AP i j * c = (if i = j then c else 0)"
    using rhs by simp
  then show ?thesis using c by (auto split: if_splits)
qed

lemma pinv_apply_orthogonal_rows:
  assumes A: "is_mat m n A" and P: "is_mat n m P" and m: "0 < m" and n: "0 < n"
    and APA: "mat_mul (mat_mul A P) A = A"
    and PAP: "mat_mul (mat_mul P A) P = P"
    and PAh: "herm (mat_mul P A) = mat_mul P A"
    and orth: "\<And>i j. i < m \<Longrightarrow> j < m \<Longrightarrow> (\<Sum>k<n. A ! i ! k * cnj (A ! j ! k)) = (if i = j then c else 0)"
    and c: "c \<noteq> 0"
    and k: "k < n" and y: "length y = m"
  shows "dot (P ! k) y = (\<Sum>b<m. cnj (A ! b ! k) * y ! b) / c"
proof -
  let ?z = "gram_vec P y n m"
  have z: "c * ?z i = y ! i" if i: "i < m" for i
  proof -
    have "(\<Sum>k<n. A ! i ! k * dot (P ! k) y) = (\<Sum>k<n. A ! i ! k * (\<Sum>j<m. P ! k ! j * y ! j))"
      by (rule sum.cong) (simp_all add: dot_sum is_mat_row [OF P])
    also have "\<dots> = (\<Sum>k<n. \<Sum>j<m. (A ! i ! k * P ! k ! j) * y ! j)"
      by (simp add: sum_distrib_left mult.assoc)
    also have "\<dots> = (\<Sum>j<m. \<Sum>k<n. (A ! i ! k * P ! k ! j) * y ! j)"
      by (rule sum.swap)
    also have "\<dots> = (\<Sum>j<m. (\<Sum>k<n. A ! i ! k * P ! k ! j) * y ! j)"
      by (simp add: sum_distrib_right)
    also have "\<dots> = (\<Sum>j<m. (if i = j then 1 else 0) * y ! j)"
      by (rule sum.cong) (simp_all add: orthogonal_rows_AP [OF A P m n APA orth c i])
    also have "\<dots> = y ! i"
      using i by (simp add: sum.delta if_distrib [of "\<lambda>x. x * _"] cong: if_cong)
    finally have lhs: "(\<Sum>k<n. A ! i ! k * dot (P ! k) y) = y ! i" .
    have "(\<Sum>k<n. A ! i ! k * dot (P ! k) y) = (\<Sum>k<n. A ! i ! k * (\<Sum>b<m. cnj (A ! b ! k) * ?z b))"
      by (rule sum.cong) (simp_all add: pinv_apply_range [OF A P m n PAP PAh _ y])
    also have "\<dots> = (\<Sum>k<n. \<Sum>b<m. (A ! i ! k * cnj (A ! b ! k)) * ?z b)"
      by (simp add: sum_distrib_left mult.assoc)
    also have "\<dots> = (\<Sum>b<m. \<Sum>k<n. (A ! i ! k * cnj (A ! b ! k)) * ?z b)"
      by (rule sum.swap)
    also have "\<dots> = (\<Sum>b<m. (\<Sum>k<n. A ! i ! k * cnj (A ! b ! k)) * ?z b)"
      by (simp add: sum_distrib_right)
    also have "\<dots> = (\<Sum>b<m. (if i = b then c else 0) * ?z b)"
      by (rule sum.cong) (simp_all add: orth i)
    also have "\<dots> = c * ?z i"
      using i by (simp add: sum.delta if_distrib [of "\<lambda>x. x * _"] cong: if_cong)
    finally show ?thesis using lhs by simp
  qed
  have "dot (P ! k) y = (\<Sum>b<m. cnj (A ! b ! k) * ?z b)"
    by (rule pinv_apply_range [OF A P m n PAP PAh k y])
  also have "\<dots> = (\<Sum>b<m. cnj (A ! b ! k) * (y ! b / c))"
  proof (rule sum.cong)
    fix b assume "b \<in> {..<m}"
    then have "c * ?z b = y ! b" using z by simp
    then have "?z b = y ! b / c" using c by (simp add: field_simps)
    then show "cnj (A ! b ! k) * ?z b = cnj (A ! b ! k) * (y ! b / c)" by simp
  qed simp
  also have "\<dots> = (\<Sum>b<m. cnj (A ! b ! k) * y ! b) / c"
    by (simp add: sum_divide_distrib)
  finally show ?thesis .
qed

section \<open>Evaluation of products on written-out arrays\<close>

lemma dot_Nil: "dot [] v = 0"
  by (simp add: dot_def)

lemma dot_Cons: "dot (x # xs) (y # ys) = x * y + dot xs ys"
proof -
  have "[0..<Suc (length xs)] = 0 # map Suc [0..<length xs]"
    by (simp add: upt_conv_Cons map_Suc_upt del: upt_Suc)
  then show ?thesis
    by (simp add: dot_def o_def del: upt_Suc)
qed

lemma kron_gate:
  assumes B: "is_mat d d B" and d: "0 < d"
  shows "kron [[a, b], [c, e]] B =
     map (\<lambda>row. map ((*) a) row @ map ((*) b) row) B
     @ map (\<lambda>row. map ((*) c) row @ map ((*) e) row) B"
    (is "_ = ?R")
proof (rule mat_eqI [of "2 * d" "2 * d"])
  have A: "is_mat 2 2 [[a, b], [c, e]]" by (simp add: is_mat_def)
  show "is_mat (2 * d) (2 * d) (kron [[a, b], [c, e]] B)"
    by (rule is_mat_kron [OF A B]) (simp_all add: d)
  show "is_mat (2 * d) (2 * d) ?R"
    using B by (auto simp: is_mat_def list_all_iff)
  fix i j assume i: "i < 2 * d" and j: "j < 2 * d"
  have lhs: "kron [[a, b], [c, e]] B ! i ! j
      = [[a, b], [c, e]] ! (i div d) ! (j div d) * B ! (i mod d) ! (j mod d)"
    by (rule kron_nth [OF A B _ d]) (simp_all add: i j)
  have len: "length B = d" and row: "\<And>k. k < d \<Longrightarrow> length (B ! k) = d"
    using B by (simp_all add: is_mat_length is_mat_row)
  have hi: "k div d = 1 \<and> k mod d = k - d" if "d \<le> k" "k < 2 * d" for k
  proof -
    have k: "k - d < d" using that by simp
    have "k div d = Suc ((k - d) div d)"
      using that(1) d by (simp add: le_div_geq)
    moreover have "k mod d = (k - d) mod d"
      using that(1) by (simp add: le_mod_geq)
    ultimately show ?thesis using k by simp
  qed
  consider (a) "i < d" "j < d" | (b) "i < d" "d \<le> j" | (c) "d \<le> i" "j < d" | (d) "d \<le> i" "d \<le> j"
    by linarith
  then show "kron [[a, b], [c, e]] B ! i ! j = ?R ! i ! j"
  proof cases
    case a
    then show ?thesis by (simp add: lhs nth_append len row)
  next
    case b
    then have "j - d < d" using j by simp
    with b hi [OF b(2) j] show ?thesis by (simp add: lhs nth_append len row)
  next
    case c
    then have "i - d < d" using i by simp
    with c hi [OF c(1) i] show ?thesis by (simp add: lhs nth_append len row)
  next
    case d
    then have "i - d < d" "j - d < d" using i j by simp_all
    with d hi [OF d(1) i] hi [OF d(2) j] show ?thesis by (simp add: lhs nth_append len row)
  qed
qed

section \<open>The pseudo-inverse of a matrix with orthogonal rows\<close>

lemma mat_div_mat_of: "mat_div (mat_of r c f) x = mat_of r c (\<lambda>i j. f i j / x)"
  by (simp add: mat_div_def mat_of_def)

lemma sum_delta_left:
  fixes f :: "nat \<Rightarrow> complex"
  assumes "i < m"
  shows "(\<Sum>a<m. (if i = a then 1 else 0) * f a) = f i"
  using assms by (simp add: sum.delta if_distrib [of "\<lambda>x. x * _"] cong: if_cong)

lemma sum_delta_right:
  fixes f :: "nat \<Rightarrow> complex"
  assumes "j < m"
  shows "(\<Sum>a<m. f a * (if a = j then 1 else 0)) = f j"
  using assms by (simp add: sum.delta' if_distrib [of "\<lambda>x. _ * x"] cong: if_cong)

lemma is_mat_mat_mul:
  assumes "is_mat r k A" and "is_mat k c B" and "0 < k"
  shows "is_mat r c (mat_mul A B)"
  by (simp add: mat_mul_eq [OF assms])

lemma mat_mul_nth:
  assumes "is_mat r k A" and "is_mat k c B" and "0 < k" and "i < r" and "j < c"
  shows "mat_mul A B ! i ! j = (\<Sum>l<k. A ! i ! l * B ! l ! j)"
  using assms(4,5) by (simp add: mat_mul_eq [OF assms(1-3)])

lemma is_pinv_herm_div:
  assumes A: "is_mat m n A" and m: "0 < m" and n: "0 < n"
    and orth: "\<And>i j. i < m \<Longrightarrow> j < m \<Longrightarrow> (\<Sum>k<n. A ! i ! k * cnj (A ! j ! k)) = (if i = j then c else 0)"
    and c: "c \<noteq> 0" and c_real: "cnj c = c"
  shows "is_pinv A (mat_div (herm A) c)"
proof -
  let ?P = "mat_div (herm A) c"
  define s where "s = inverse c"
  have s: "c * s = 1" "cnj s = s"
    using c c_real by (simp_all add: s_def)
  have P_eq: "?P = mat_of n m (\<lambda>k i. cnj (A ! i ! k) * s)"
    by (simp add: herm_eq [OF A m] mat_div_mat_of s_def divide_inverse)
  have P: "is_mat n m ?P" by (simp add: P_eq)
  have P_nth: "?P ! k ! i = cnj (A ! i ! k) * s" if "k < n" "i < m" for k i
    using that by (simp add: P_eq)
  have APm: "is_mat m m (mat_mul A ?P)" by (rule is_mat_mat_mul [OF A P n])
  have PAm: "is_mat n n (mat_mul ?P A)" by (rule is_mat_mat_mul [OF P A m])
  have AP_nth: "mat_mul A ?P ! i ! j = (if i = j then 1 else 0)" if ij: "i < m" "j < m" for i j
  proof -
    have "mat_mul A ?P ! i ! j = (\<Sum>k<n. A ! i ! k * ?P ! k ! j)"
      by (rule mat_mul_nth [OF A P n ij])
    also have "\<dots> = (\<Sum>k<n. (A ! i ! k * cnj (A ! j ! k)) * s)"
      by (rule sum.cong) (simp_all add: P_nth ij mult.assoc)
    also have "\<dots> = (\<Sum>k<n. A ! i ! k * cnj (A ! j ! k)) * s"
      by (simp add: sum_distrib_right)
    also have "\<dots> = (if i = j then 1 else 0)"
      using s(1) by (simp add: orth ij)
    finally show ?thesis .
  qed
  have PA_nth: "mat_mul ?P A ! k ! l = (\<Sum>i<m. cnj (A ! i ! k) * s * A ! i ! l)" if kl: "k < n" "l < n" for k l
  proof -
    have "mat_mul ?P A ! k ! l = (\<Sum>i<m. ?P ! k ! i * A ! i ! l)"
      by (rule mat_mul_nth [OF P A m kl])
    also have "\<dots> = (\<Sum>i<m. cnj (A ! i ! k) * s * A ! i ! l)"
      by (rule sum.cong) (simp_all add: P_nth kl)
    finally show ?thesis .
  qed
  have shape: "pinv_shape A ?P"
    using P by (simp add: pinv_shape_def is_mat_nrows [OF A] is_mat_ncols [OF A m])
  have e1: "mat_mul (mat_mul A ?P) A = A"
  proof (rule mat_eqI [OF _ A])
    show "is_mat m n (mat_mul (mat_mul A ?P) A)"
      by (rule is_mat_mat_mul [OF APm A m])
    fix i k assume ik: "i < m" "k < n"
    have "mat_mul (mat_mul A ?P) A ! i ! k = (\<Sum>a<m. mat_mul A ?P ! i ! a * A ! a ! k)"
      by (rule mat_mul_nth [OF APm A m ik])
    also have "\<dots> = (\<Sum>a<m. (if i = a then 1 else 0) * A ! a ! k)"
      by (rule sum.cong) (simp_all add: AP_nth ik)
    also have "\<dots> = A ! i ! k"
      by (rule sum_delta_left [OF ik(1)])
    finally show "mat_mul (mat_mul A ?P) A ! i ! k = A ! i ! k" .
  qed
  have e2: "mat_mul (mat_mul ?P A) ?P = ?P"
  proof (rule mat_eqI [OF _ P])
    show "is_mat n m (mat_mul (mat_mul ?P A) ?P)"
      by (rule is_mat_mat_mul [OF PAm P n])
    fix k j assume kj: "k < n" "j < m"
    have "mat_mul (mat_mul ?P A) ?P ! k ! j = (\<Sum>l<n. mat_mul ?P A ! k ! l * ?P ! l ! j)"
      by (rule mat_mul_nth [OF PAm P n kj])
    also have "\<dots> = (\<Sum>l<n. (\<Sum>i<m. cnj (A ! i ! k) * s * A ! i ! l) * (cnj (A ! j ! l) * s))"
      by (rule sum.cong) (simp_all add: PA_nth kj P_nth)
    also have "\<dots> = (\<Sum>l<n. \<Sum>i<m. cnj (A ! i ! k) * s * ((A ! i ! l * cnj (A ! j ! l)) * s))"
      by (simp add: sum_distrib_right mult.assoc)
    also have "\<dots> = (\<Sum>i<m. \<Sum>l<n. cnj (A ! i ! k) * s * ((A ! i ! l * cnj (A ! j ! l)) * s))"
      by (rule sum.swap)
    also have "\<dots> = (\<Sum>i<m. cnj (A ! i ! k) * s * ((\<Sum>l<n. A ! i ! l * cnj (A ! j ! l)) * s))"
      by (simp add: sum_distrib_left sum_distrib_right)
    also have "\<dots> = (\<Sum>i<m. cnj (A ! i ! k) * s * (if i = j then 1 else 0))"
      by (rule sum.cong) (use s(1) in \<open>simp_all add: orth kj\<close>)
    also have "\<dots> = cnj (A ! j ! k) * s"
      by (rule sum_delta_right [OF kj(2)])
    finally show "mat_mul (mat_mul ?P A) ?P ! k ! j = ?P ! k ! j"
      by (simp add: P_nth kj)
  qed
  have e3: "herm (mat_mul A ?P) = mat_mul A ?P"
  proof (rule mat_eqI [OF _ APm])
    show "is_mat m m (herm (mat_mul A ?P))"
      by (simp add: herm_eq [OF APm m])
    fix i j assume "i < m" "j < m"
    then show "herm (mat_mul A ?P) ! i ! j = mat_mul A ?P ! i ! j"
      by (auto simp: herm_eq [OF APm m] AP_nth)
  qed
  have e4: "herm (mat_mul ?P A) = mat_mul ?P A"
  proof (rule mat_eqI [OF _ PAm])
    show "is_mat n n (herm (mat_mul ?P A))"
      by (simp add: herm_eq [OF PAm n])
    fix k l assume "k < n" "l < n"
    then show "herm (mat_mul ?P A) ! k ! l = mat_mul ?P A ! k ! l"
      by (simp add: herm_eq [OF PAm n] PA_nth s(2) mult_ac)
  qed
  show ?thesis
    unfolding is_pinv_def using shape e1 e2 e3 e4 by simp
qed

section \<open>Traces\<close>

lemma trace_sum: "trace A = (\<Sum>i<length A. A ! i ! i)"
  by (simp add: trace_def sum_list_upt)

lemma trace_mat_of: "trace (mat_of d d f) = (\<Sum>i<d. f i i)"
  by (simp add: trace_sum)

lemma trace_gate_matrix: "trace (gate_matrix p) = (if p = PauliI then 2 else 0)"
  by (cases p) (simp_all add: trace_def upt_rec)

lemma trace_mat_scale:
  assumes "is_mat d d A"
  shows "trace (mat_scale A x) = trace A * x"
proof -
  have "mat_scale A x ! i ! i = A ! i ! i * x" if "i < d" for i
    using that assms by (simp add: mat_scale_def is_mat_length is_mat_row)
  then show ?thesis
    using assms by (simp add: trace_sum mat_scale_def is_mat_length sum_distrib_right)
qed

lemma sum_list_concat_map:
  fixes g :: "'a \<Rightarrow> complex list"
  shows "sum_list (concat (map g xs)) = sum_list (map (\<lambda>x. sum_list (g x)) xs)"
  by (induction xs) simp_all

lemma sum_list_blocks:
  fixes f :: "nat \<Rightarrow> nat \<Rightarrow> complex"
  shows "sum_list (map (\<lambda>k. f (k div r) (k mod r)) [0..<c * r])
     = (\<Sum>a<c. \<Sum>b<r. f a b)"
proof -
  have "sum_list (map (\<lambda>k. f (k div r) (k mod r)) [0..<c * r])
      = sum_list (concat (map (\<lambda>j. map (f j) [0..<r]) [0..<c]))"
    by (simp only: concat_blocks)
  also have "\<dots> = (\<Sum>a<c. \<Sum>b<r. f a b)"
    by (simp add: sum_list_concat_map sum_list_upt)
  finally show ?thesis .
qed

lemma trace_kron:
  assumes A: "is_mat r r A" and B: "is_mat r' r' B" and r: "0 < r" and r': "0 < r'"
  shows "trace (kron A B) = trace A * trace B"
proof -
  have K: "is_mat (r * r') (r * r') (kron A B)"
    by (rule is_mat_kron [OF A B r r'])
  have "trace (kron A B) = sum_list (map (\<lambda>k. kron A B ! k ! k) [0..<r * r'])"
    using K by (simp add: trace_def is_mat_length)
  also have "\<dots> = sum_list (map (\<lambda>k. A ! (k div r') ! (k div r') * B ! (k mod r') ! (k mod r')) [0..<r * r'])"
    by (rule arg_cong [where f = sum_list], rule map_cong) (simp_all add: kron_nth [OF A B r r'])
  also have "\<dots> = (\<Sum>a<r. \<Sum>b<r'. A ! a ! a * B ! b ! b)"
    by (rule sum_list_blocks)
  also have "\<dots> = trace A * trace B"
    using A B by (simp add: trace_sum is_mat_length sum_product)
  finally show ?thesis .
qed

lemma trace_foldl_kron:
  assumes "is_mat d d B" and "0 < d"
  shows "trace (foldl (\<lambda>term_hilbert qubit. kron (gate_matrix (term_op t qubit)) term_hilbert) B qs)
     = prod_list (map (\<lambda>q. trace (gate_matrix (term_op t q))) qs) * trace B"
  using assms
proof (induction qs arbitrary: B d)
  case Nil
  show ?case by simp
next
  case (Cons q qs)
  let ?B' = "kron (gate_matrix (term_op t q)) B"
  have B': "is_mat (2 * d) (2 * d) ?B'"
    using is_mat_kron [OF is_mat_gate_matrix Cons.prems(1) _ Cons.prems(2)] by simp
  have "trace ?B' = trace (gate_matrix (term_op t q)) * trace B"
    by (rule trace_kron [OF is_mat_gate_matrix Cons.prems(1) _ Cons.prems(2)]) simp
  then show ?case
    using Cons.IH [OF B'] Cons.prems(2) by (simp add: mult_ac)
qed

lemma trace_lifted_pauli_zero:
  assumes "\<exists>q \<in> set qs. term_op t q \<noteq> PauliI"
  shows "trace (lifted_pauli t qs) = 0"
proof -
  have one: "is_mat 1 1 [[1]]" by (simp add: is_mat_def)
  have "0 \<in> set (map (\<lambda>q. trace (gate_matrix (term_op t q))) qs)"
    using assms by (auto simp: trace_gate_matrix image_iff)
  then have "prod_list (map (\<lambda>q. trace (gate_matrix (term_op t q))) qs) = 0"
    by (simp only: prod_list_zero_iff)
  then have "trace (foldl (\<lambda>term_hilbert qubit. kron (gate_matrix (term_op t qubit)) term_hilbert) [[1]] qs) = 0"
    using trace_foldl_kron [OF one, of t qs] by simp
  moreover have "is_mat (2 ^ length qs) (2 ^ length qs)
      (foldl (\<lambda>term_hilbert qubit. kron (gate_matrix (term_op t qubit)) term_hilbert) [[1]] qs)"
    using is_mat_foldl_kron [OF one, of qs t] by simp
  ultimately show ?thesis
    by (simp add: lifted_pauli_def trace_mat_scale)
qed

lemma spec_measurement_matrix_nth:
  assumes b: "b < length results" and i: "i < 2 ^ length qs"
  shows "cnj (spec_measurement_matrix results qs ! b ! (i * 2 ^ length qs + i))
     = lifted_pauli (out_operator (setting (results ! b))) qs ! i ! i"
proof -
  let ?d = "2 ^ length qs :: nat"
  let ?O = "lifted_pauli (out_operator (setting (results ! b))) qs"
  have d: "0 < ?d" by simp
  have k: "i * ?d + i < ?d * ?d" using i i by (rule block_index_less)
  have "spec_vec ?O ! (i * ?d + i) = ?O ! i ! i"
    using k i by (simp add: spec_vec_eq [OF is_mat_lifted_pauli d])
  moreover have "length (spec_vec ?O) = ?d * ?d"
    by (simp add: spec_vec_eq [OF is_mat_lifted_pauli d])
  ultimately show ?thesis
    using b k by (simp add: spec_measurement_matrix_def)
qed

lemma trace_spec_estimate:
  assumes ne: "results \<noteq> []"
    and pinv: "is_pinv (spec_measurement_matrix results qs) (pinv (spec_measurement_matrix results qs))"
    and traceless: "\<And>r. r \<in> set results \<Longrightarrow> trace (lifted_pauli (out_operator (setting r)) qs) = 0"
  shows "trace (spec_estimate pinv results qs) = 1"
proof -
  let ?d = "2 ^ length qs :: nat"
  let ?m = "length results"
  let ?M = "spec_measurement_matrix results qs"
  let ?P = "pinv ?M"
  let ?y = "expectations results"
  let ?rho = "map (\<lambda>row. dot row ?y) ?P"
  let ?z = "gram_vec ?P ?y (?d * ?d) ?m"
  have m: "0 < ?m" using ne by simp
  have n: "0 < ?d * ?d" by simp
  have M: "is_mat ?m (?d * ?d) ?M" by (rule is_mat_spec_measurement_matrix)
  have P: "is_mat (?d * ?d) ?m ?P"
    using pinv by (simp add: is_pinv_def pinv_shape_def is_mat_ncols [OF M m] is_mat_nrows [OF M])
  have PAP: "mat_mul (mat_mul ?P ?M) ?P = ?P" and PAh: "herm (mat_mul ?P ?M) = mat_mul ?P ?M"
    using pinv by (simp_all add: is_pinv_def)
  have y: "length ?y = ?m" by (simp add: expectations_def)
  have len: "length ?rho = ?d * ?d" using P by (simp add: is_mat_length)
  have diag: "?rho ! (i * ?d + i)
      = (\<Sum>b<?m. lifted_pauli (out_operator (setting (results ! b))) qs ! i ! i * ?z b)" if i: "i < ?d" for i
  proof -
    have k: "i * ?d + i < ?d * ?d" using i i by (rule block_index_less)
    then have "?rho ! (i * ?d + i) = dot (?P ! (i * ?d + i)) ?y"
      using P by (simp add: is_mat_length)
    also have "\<dots> = (\<Sum>b<?m. cnj (?M ! b ! (i * ?d + i)) * ?z b)"
      by (rule pinv_apply_range [OF M P m n PAP PAh k y])
    also have "\<dots> = (\<Sum>b<?m. lifted_pauli (out_operator (setting (results ! b))) qs ! i ! i * ?z b)"
      by (rule sum.cong) (simp_all add: spec_measurement_matrix_nth i)
    finally show ?thesis .
  qed
  have "trace (spec_estimate pinv results qs)
      = (\<Sum>i<?d. spec_unvec ?d ?rho ! i ! i + 1 / of_nat ?d)"
    by (simp add: spec_estimate_def Let_def trace_mat_of)
  also have "\<dots> = (\<Sum>i<?d. ?rho ! (i * ?d + i)) + 1"
    by (simp add: sum.distrib spec_unvec_nth [OF len])
  also have "(\<Sum>i<?d. ?rho ! (i * ?d + i))
      = (\<Sum>i<?d. \<Sum>b<?m. lifted_pauli (out_operator (setting (results ! b))) qs ! i ! i * ?z b)"
    by (rule sum.cong) (simp_all add: diag)
  also have "\<dots> = (\<Sum>b<?m. \<Sum>i<?d. lifted_pauli (out_operator (setting (results ! b))) qs ! i ! i * ?z b)"
    by (rule sum.swap)
  also have "\<dots> = (\<Sum>b<?m. trace (lifted_pauli (out_operator (setting (results ! b))) qs) * ?z b)"
    using is_mat_length [OF is_mat_lifted_pauli] by (simp add: trace_sum sum_distrib_right)
  also have "\<dots> = 0"
    by (rule sum.neutral) (simp add: traceless)
  finally show ?thesis by simp
qed

section \<open>The Bell input, evaluated\<close>

lemma terms2: "all_traceless_pauli_terms [0, 1] = [\<lparr>ops = [(1, PauliX)], coefficient = 1\<rparr>,
    \<lparr>ops = [(1, PauliY)], coefficient = 1\<rparr>,
    \<lparr>ops = [(1, PauliZ)], coefficient = 1\<rparr>,
    \<lparr>ops = [(0, PauliX)], coefficient = 1\<rparr>,
    \<lparr>ops = [(0, PauliX), (1, PauliX)], coefficient = 1\<rparr>,
    \<lparr>ops = [(0, PauliX), (1, PauliY)], coefficient = 1\<rparr>,
    \<lparr>ops = [(0, PauliX), (1, PauliZ)], coefficient = 1\<rparr>,
    \<lparr>ops = [(0, PauliY)], coefficient = 1\<rparr>,
    \<lparr>ops = [(0, PauliY), (1, PauliX)], coefficient = 1\<rparr>,
    \<lparr>ops = [(0, PauliY), (1, PauliY)], coefficient = 1\<rparr>,
    \<lparr>ops = [(0, PauliY), (1, PauliZ)], coefficient = 1\<rparr>,
    \<lparr>ops = [(0, PauliZ)], coefficient = 1\<rparr>,
    \<lparr>ops = [(0, PauliZ), (1, PauliX)], coefficient = 1\<rparr>,
    \<lparr>ops = [(0, PauliZ), (1, PauliY)], coefficient = 1\<rparr>,
    \<lparr>ops = [(0, PauliZ), (1, PauliZ)], coefficient = 1\<rparr>]"
  by (simp add: all_traceless_pauli_terms_def pauli_term_of_def numeral_2_eq_2)

lemma kron_gate_eval:
  assumes "is_mat (length B) (length B) B" and "B \<noteq> []"
  shows "kron [[a, b], [c, e]] B =
     map (\<lambda>row. map ((*) a) row @ map ((*) b) row) B
     @ map (\<lambda>row. map ((*) c) row @ map ((*) e) row) B"
  using assms by (intro kron_gate [of "length B"]) simp_all

lemmas lifted_pauli_eval =
  lifted_pauli_def kron_gate_eval term_op_def mat_scale_def is_mat_def

lemma lp0: "lifted_pauli \<lparr>ops = [(1, PauliX)], coefficient = 1\<rparr> [0, 1] = [[0, 0, 1, 0],
     [0, 0, 0, 1],
     [1, 0, 0, 0],
     [0, 1, 0, 0]]"
  by (simp add: lifted_pauli_eval)

lemma lp1: "lifted_pauli \<lparr>ops = [(1, PauliY)], coefficient = 1\<rparr> [0, 1] = [[0, 0, - \<i>, 0],
     [0, 0, 0, - \<i>],
     [\<i>, 0, 0, 0],
     [0, \<i>, 0, 0]]"
  by (simp add: lifted_pauli_eval)

lemma lp2: "lifted_pauli \<lparr>ops = [(1, PauliZ)], coefficient = 1\<rparr> [0, 1] = [[1, 0, 0, 0],
     [0, 1, 0, 0],
     [0, 0, - 1, 0],
     [0, 0, 0, - 1]]"
  by (simp add: lifted_pauli_eval)

lemma lp3: "lifted_pauli \<lparr>ops = [(0, PauliX)], coefficient = 1\<rparr> [0, 1] = [[0, 1, 0, 0],
     [1, 0, 0, 0],
     [0, 0, 0, 1],
     [0, 0, 1, 0]]"
  by (simp add: lifted_pauli_eval)

lemma lp4: "lifted_pauli \<lparr>ops = [(0, PauliX), (1, PauliX)], coefficient = 1\<rparr> [0, 1] = [[0, 0, 0, 1],
     [0, 0, 1, 0],
     [0, 1, 0, 0],
     [1, 0, 0, 0]]"
  by (simp add: lifted_pauli_eval)

lemma lp5: "lifted_pauli \<lparr>ops = [(0, PauliX), (1, PauliY)], coefficient = 1\<rparr> [0, 1] = [[0, 0, 0, - \<i>],
     [0, 0, - \<i>, 0],
     [0, \<i>, 0, 0],
     [\<i>, 0, 0, 0]]"
  by (simp add: lifted_pauli_eval)

lemma lp6: "lifted_pauli \<lparr>ops = [(0, PauliX), (1, PauliZ)], coefficient = 1\<rparr> [0, 1] = [[0, 1, 0, 0],
     [1, 0, 0, 0],
     [0, 0, 0, - 1],
     [0, 0, - 1, 0]]"
  by (simp add: lifted_pauli_eval)

lemma lp7: "lifted_pauli \<lparr>ops = [(0, PauliY)], coefficient = 1\<rparr> [0, 1] = [[0, - \<i>, 0, 0],
     [\<i>, 0, 0, 0],
     [0, 0, 0, - \<i>],
     [0, 0, \<i>, 0]]"
  by (simp add: lifted_pauli_eval)

lemma lp8: "lifted_pauli \<lparr>ops = [(0, PauliY), (1, PauliX)], coefficient = 1\<rparr> [0, 1] = [[0, 0, 0, - \<i>],
     [0, 0, \<i>, 0],
     [0, - \<i>, 0, 0],
     [\<i>, 0, 0, 0]]"
  by (simp add: lifted_pauli_eval)

lemma lp9: "lifted_pauli \<lparr>ops = [(0, PauliY), (1, PauliY)], coefficient = 1\<rparr> [0, 1] = [[0, 0, 0, - 1],
     [0, 0, 1, 0],
     [0, 1, 0, 0],
     [- 1, 0, 0, 0]]"
  by (simp add: lifted_pauli_eval)

lemma lp10: "lifted_pauli \<lparr>ops = [(0, PauliY), (1, PauliZ)], coefficient = 1\<rparr> [0, 1] = [[0, - \<i>, 0, 0],
     [\<i>, 0, 0, 0],
     [0, 0, 0, \<i>],
     [0, 0, - \<i>, 0]]"
  by (simp add: lifted_pauli_eval)

lemma lp11: "lifted_pauli \<lparr>ops = [(0, PauliZ)], coefficient = 1\<rparr> [0, 1] = [[1, 0, 0, 0],
     [0, - 1, 0, 0],
     [0, 0, 1, 0],
     [0, 0, 0, - 1]]"
  by (simp add: lifted_pauli_eval)

lemma lp12: "lifted_pauli \<lparr>ops = [(0, PauliZ), (1, PauliX)], coefficient = 1\<rparr> [0, 1] = [[0, 0, 1, 0],
     [0, 0, 0, - 1],
     [1, 0, 0, 0],
     [0, - 1, 0, 0]]"
  by (simp add: lifted_pauli_eval)

lemma lp13: "lifted_pauli \<lparr>ops = [(0, PauliZ), (1, PauliY)], coefficient = 1\<rparr> [0, 1] = [[0, 0, - \<i>, 0],
     [0, 0, 0, \<i>],
     [\<i>, 0, 0, 0],
     [0, - \<i>, 0, 0]]"
  by (simp add: lifted_pauli_eval)

lemma lp14: "lifted_pauli \<lparr>ops = [(0, PauliZ), (1, PauliZ)], coefficient = 1\<rparr> [0, 1] = [[1, 0, 0, 0],
     [0, - 1, 0, 0],
     [0, 0, - 1, 0],
     [0, 0, 0, 1]]"
  by (simp add: lifted_pauli_eval)

lemma bell_M_eq: "spec_measurement_matrix bell_results [0, 1] = bell_M"
  by (simp add: bell_results_def results_of_def state_tomo_settings_def terms2 bell_expectations_def
      spec_measurement_matrix_def lp0 lp1 lp2 lp3 lp4 lp5 lp6 lp7 lp8 lp9 lp10 lp11 lp12 lp13 lp14 spec_vec_def nrows_def ncols_def bell_M_def del: One_nat_def)

lemma bell_gram: "map (\<lambda>r. map (\<lambda>r'. dot r (map cnj r')) bell_M) bell_M = mat_of 15 15 (\<lambda>i j. if i = j then 4 else 0)"
  by (simp add: bell_M_def dot_Cons dot_Nil mat_of_def upt_rec)

lemma bell_MH_eq: "herm bell_M = bell_MH"
  by (simp add: herm_def mat_of_def nrows_def ncols_def bell_M_def bell_MH_def upt_rec)

lemma bell_y: "expectations bell_results = [0,0,0,0,1,0,0,0,0,-1,0,0,0,0,1]"
  by (simp add: expectations_def bell_results_def results_of_def state_tomo_settings_def terms2 bell_expectations_def del: One_nat_def)

text \<open>The Bell input: each observable, by its operators, with its expectation.\<close>

lemma bell_results_listing:
  "map (\<lambda>r. (ops (out_operator (setting r)), expectation r)) bell_results =
   [([(1, PauliX)], 0),
    ([(1, PauliY)], 0),
    ([(1, PauliZ)], 0),
    ([(0, PauliX)], 0),
    ([(0, PauliX), (1, PauliX)], 1),
    ([(0, PauliX), (1, PauliY)], 0),
    ([(0, PauliX), (1, PauliZ)], 0),
    ([(0, PauliY)], 0),
    ([(0, PauliY), (1, PauliX)], 0),
    ([(0, PauliY), (1, PauliY)], - 1),
    ([(0, PauliY), (1, PauliZ)], 0),
    ([(0, PauliZ)], 0),
    ([(0, PauliZ), (1, PauliX)], 0),
    ([(0, PauliZ), (1, PauliY)], 0),
    ([(0, PauliZ), (1, PauliZ)], 1)]"
  by (simp add: bell_results_def results_of_def state_tomo_settings_def terms2 bell_expectations_def
      del: One_nat_def)

lemma bell_rho_vec: "map (\<lambda>row. dot row (expectations bell_results) / 4) bell_MH = [1/4,0,0,1/2, 0,-1/4,0,0, 0,0,-1/4,0, 1/2,0,0,1/4]"
  by (simp add: bell_y bell_MH_def dot_Cons dot_Nil)

lemma half: "complex_of_real (1 / sqrt 2) * complex_of_real (1 / sqrt 2) = 1 / 2"
proof -
  have "complex_of_real (1 / sqrt 2) * complex_of_real (1 / sqrt 2) = complex_of_real ((1 / sqrt 2) * (1 / sqrt 2))"
    by (simp only: of_real_mult)
  also have "(1 / sqrt 2) * (1 / sqrt 2) = (1 / 2 :: real)"
    by simp
  finally show ?thesis by simp
qed

lemma sqrt2: "complex_of_real (sqrt 2) * complex_of_real (sqrt 2) = 2"
proof -
  have "complex_of_real (sqrt 2) * complex_of_real (sqrt 2) = complex_of_real (sqrt 2 * sqrt 2)"
    by (simp only: of_real_mult)
  then show ?thesis by simp
qed

lemma kHI: "kron psm_H psm_I = 
  [[complex_of_real (1 / sqrt 2), 0, complex_of_real (1 / sqrt 2), 0],
   [0, complex_of_real (1 / sqrt 2), 0, complex_of_real (1 / sqrt 2)],
   [complex_of_real (1 / sqrt 2), 0, - complex_of_real (1 / sqrt 2), 0],
   [0, complex_of_real (1 / sqrt 2), 0, - complex_of_real (1 / sqrt 2)]]"
  unfolding psm_H_def psm_I_def by (simp add: kron_gate_eval is_mat_def)

lemma bell00: "mat_mul (mat_mul psm_CNOT (kron psm_H psm_I)) [[1], [0], [0], [0]]
   = [[complex_of_real (1 / sqrt 2)], [0], [0], [complex_of_real (1 / sqrt 2)]]"
  unfolding kHI psm_CNOT_def
  by (simp add: mat_mul_def mat_of_def nrows_def ncols_def upt_rec)

lemma build_rho_true_eq: "build_rho_true = rho_bell"
  unfolding build_rho_true_def Let_def bell00
  by (simp add: outer_def herm_def mat_of_def nrows_def ncols_def upt_rec rho_bell_def sqrt2)

section \<open>Pauli observables and their pseudo-inverse\<close>

lemma gram_nth:
  assumes A: "is_mat m n A"
    and g: "gram A = mat_of m m (\<lambda>i j. if i = j then c else 0)"
    and i: "i < m" and j: "j < m"
  shows "(\<Sum>k<n. A ! i ! k * cnj (A ! j ! k)) = (if i = j then c else 0)"
proof -
  have len: "length A = m" "length (A ! i) = n" "length (A ! j) = n"
    using A i j by (simp_all add: is_mat_length is_mat_row)
  have "gram A ! i ! j = dot (A ! i) (map cnj (A ! j))"
    using i j len by (simp add: gram_def)
  also have "\<dots> = (\<Sum>k<n. A ! i ! k * cnj (A ! j ! k))"
    using len by (simp add: dot_sum)
  finally have "(\<Sum>k<n. A ! i ! k * cnj (A ! j ! k)) = gram A ! i ! j" by simp
  also have "\<dots> = (if i = j then c else 0)"
    unfolding g using i j by simp
  finally show ?thesis .
qed

lemma pinv_orthogonal_rows_correct:
  assumes A: "is_mat m n A" and m: "0 < m" and n: "0 < n"
    and g: "gram A = mat_of m m (\<lambda>i j. if i = j then c else 0)"
    and c: "c \<noteq> 0" and c_real: "cnj c = c"
  shows "is_pinv A (pinv_orthogonal_rows A)"
proof -
  obtain row rest where Cons: "A = row # rest"
    using A m by (cases A) (auto simp: is_mat_def)
  have "dot row (map cnj row) = gram A ! 0 ! 0"
    by (simp add: gram_def Cons)
  also have "\<dots> = c"
    unfolding g using m by simp
  finally have "pinv_orthogonal_rows A = mat_div (herm A) c"
    by (simp add: pinv_orthogonal_rows_def Cons)
  moreover have "is_pinv A (mat_div (herm A) c)"
    by (rule is_pinv_herm_div [OF A m n gram_nth [OF A g] c c_real])
  ultimately show ?thesis by simp
qed

lemma pinv_apply_gram:
  assumes A: "is_mat m n A" and m: "0 < m" and n: "0 < n"
    and pinv: "is_pinv A P"
    and g: "gram A = mat_of m m (\<lambda>i j. if i = j then c else 0)"
    and c: "c \<noteq> 0" and y: "length y = m"
  shows "map (\<lambda>row. dot row y) P = map (\<lambda>row. dot row y / c) (herm A)"
proof -
  have P: "is_mat n m P"
    using pinv by (simp add: is_pinv_def pinv_shape_def is_mat_ncols [OF A m] is_mat_nrows [OF A])
  have eqs: "mat_mul (mat_mul A P) A = A" "mat_mul (mat_mul P A) P = P" "herm (mat_mul P A) = mat_mul P A"
    using pinv by (simp_all add: is_pinv_def)
  show ?thesis
  proof (rule nth_equalityI)
    show "length (map (\<lambda>row. dot row y) P) = length (map (\<lambda>row. dot row y / c) (herm A))"
      using P by (simp add: herm_eq [OF A m] is_mat_length)
  next
    fix k assume "k < length (map (\<lambda>row. dot row y) P)"
    then have k: "k < n" using P by (simp add: is_mat_length)
    have "dot (P ! k) y = (\<Sum>b<m. cnj (A ! b ! k) * y ! b) / c"
      by (rule pinv_apply_orthogonal_rows [OF A P m n eqs gram_nth [OF A g] c k y])
    moreover have "dot (herm A ! k) y = (\<Sum>b<m. cnj (A ! b ! k) * y ! b)"
      using k by (simp add: herm_eq [OF A m] dot_sum)
    ultimately show "map (\<lambda>row. dot row y) P ! k = map (\<lambda>row. dot row y / c) (herm A) ! k"
      using k P by (simp add: herm_eq [OF A m] is_mat_length)
  qed
qed

lemma pinv_shaped_iff:
  assumes "results \<noteq> []"
  shows "pinv_shaped pinv results qs \<longleftrightarrow>
     pinv_shape (spec_measurement_matrix results qs) (pinv (spec_measurement_matrix results qs))"
  by (simp add: pinv_shaped_def measurement_matrix_spec [OF assms])

lemma pinv_correct_iff:
  assumes "results \<noteq> []"
  shows "pinv_correct pinv results qs \<longleftrightarrow>
     is_pinv (spec_measurement_matrix results qs) (pinv (spec_measurement_matrix results qs))"
  by (simp add: pinv_correct_def measurement_matrix_spec [OF assms])

lemma is_mat_spec_estimate:
  "is_mat (2 ^ length qs) (2 ^ length qs) (spec_estimate pinv results qs)"
  by (simp add: spec_estimate_def Let_def)

lemma spec_estimate_zero:
  assumes ne: "results \<noteq> []"
    and shape: "pinv_shape (spec_measurement_matrix results qs) (pinv (spec_measurement_matrix results qs))"
    and zero: "\<And>r. r \<in> set results \<Longrightarrow> expectation r = 0"
  shows "spec_estimate pinv results qs = mat_div (eye (2 ^ length qs)) (of_nat (2 ^ length qs))"
proof -
  let ?d = "2 ^ length qs :: nat"
  let ?M = "spec_measurement_matrix results qs"
  let ?y = "expectations results"
  let ?rho = "map (\<lambda>row. dot row ?y) (pinv ?M)"
  have M: "is_mat (length results) (?d * ?d) ?M"
    by (rule is_mat_spec_measurement_matrix)
  have m: "0 < length results" using ne by simp
  have P: "is_mat (?d * ?d) (length results) (pinv ?M)"
    using shape by (simp add: pinv_shape_def is_mat_ncols [OF M m] is_mat_nrows [OF M])
  have y0: "?y ! k = 0" if "k < length results" for k
    using that zero by (simp add: expectations_def)
  have "dot row ?y = 0" if "length row = length results" for row
    using that by (simp add: dot_sum y0)
  then have rho0: "?rho ! k = 0" if "k < ?d * ?d" for k
    using that P by (simp add: is_mat_length is_mat_row)
  have len: "length ?rho = ?d * ?d" using P by (simp add: is_mat_length)
  show ?thesis
  proof (rule mat_eqI [of ?d ?d])
    show "is_mat ?d ?d (spec_estimate pinv results qs)" by (rule is_mat_spec_estimate)
    show "is_mat ?d ?d (mat_div (eye ?d) (of_nat ?d))" by (simp add: eye_def)
  next
    fix i j assume ij: "i < ?d" "j < ?d"
    have "spec_unvec ?d ?rho ! i ! j = 0"
      using rho0 [OF block_index_less [OF ij]] by (simp add: spec_unvec_nth [OF len ij])
    then show "spec_estimate pinv results qs ! i ! j = mat_div (eye ?d) (of_nat ?d) ! i ! j"
      using ij by (simp add: spec_estimate_def Let_def eye_div_nth)
  qed
qed

lemma all_traceless_pauli_terms_labels:
  assumes "t \<in> set (all_traceless_pauli_terms qs)"
  shows "\<exists>ls. t = pauli_term_of qs ls \<and> length ls = length qs \<and> ls \<noteq> replicate (length qs) PauliI"
proof -
  let ?n = "length qs"
  let ?L = "product_lists (replicate ?n [PauliI, PauliX, PauliY, PauliZ])"
  obtain rest where rest: "?L = replicate ?n PauliI # rest"
    using label_tuples_Cons by blast
  have "distinct ?L" by (rule distinct_label_tuples)
  then have notin: "replicate ?n PauliI \<notin> set rest" unfolding rest by simp
  have "set rest \<subseteq> set ?L" unfolding rest by auto
  then have lens: "\<And>ls. ls \<in> set rest \<Longrightarrow> length ls = ?n"
    using set_label_tuples [of ?n] by auto
  from assms obtain ls where "ls \<in> set rest" "t = pauli_term_of qs ls"
    by (auto simp: all_traceless_pauli_terms_def rest)
  with notin lens show ?thesis by auto
qed

lemma pauli_term_of_not_identity:
  assumes "length ls = length qs" and "ls \<noteq> replicate (length qs) PauliI"
  shows "\<exists>q \<in> set qs. term_op (pauli_term_of qs ls) q \<noteq> PauliI"
proof -
  let ?F = "filter (\<lambda>(q, p). p \<noteq> PauliI) (zip qs ls)"
  have "\<exists>j < length ls. ls ! j \<noteq> PauliI"
  proof (rule ccontr)
    assume "\<not> (\<exists>j < length ls. ls ! j \<noteq> PauliI)"
    then have "ls = replicate (length qs) PauliI"
      using assms(1) by (intro nth_equalityI) simp_all
    with assms(2) show False by simp
  qed
  then obtain j where j: "j < length ls" "ls ! j \<noteq> PauliI" by blast
  then have "(qs ! j, ls ! j) \<in> set ?F"
    using assms(1) by (auto simp: in_set_zip)
  then obtain q p F' where F: "?F = (q, p) # F'"
    by (cases ?F) auto
  have "(q, p) \<in> set ?F" by (simp add: F)
  then have qp: "p \<noteq> PauliI" "q \<in> set qs"
    by (auto dest: set_zip_leftD)
  have "term_op (pauli_term_of qs ls) q = p"
    by (simp add: term_op_def pauli_term_of_def F)
  with qp show ?thesis by auto
qed

lemma traceless_observables:
  assumes "t \<in> set (all_traceless_pauli_terms qs)"
  shows "trace (lifted_pauli t qs) = 0"
proof -
  obtain ls where "t = pauli_term_of qs ls" "length ls = length qs" "ls \<noteq> replicate (length qs) PauliI"
    using all_traceless_pauli_terms_labels [OF assms] by blast
  then have "\<exists>q \<in> set qs. term_op t q \<noteq> PauliI"
    using pauli_term_of_not_identity by simp
  then show ?thesis by (rule trace_lifted_pauli_zero)
qed

section \<open>One-qubit inputs, evaluated\<close>

lemma terms1: "all_traceless_pauli_terms [0] =
   [\<lparr>ops = [(0, PauliX)], coefficient = 1\<rparr>,
    \<lparr>ops = [(0, PauliY)], coefficient = 1\<rparr>,
    \<lparr>ops = [(0, PauliZ)], coefficient = 1\<rparr>]"
  by (simp add: all_traceless_pauli_terms_def pauli_term_of_def)

lemma one_qubit_results:
  "results_of [0] [a, b, c] =
   [\<lparr>setting = \<lparr>in_state = [(PauliZ, 0, 0)], out_operator = \<lparr>ops = [(0, PauliX)], coefficient = 1\<rparr>\<rparr>,
      expectation = a, std_err = 0\<rparr>,
    \<lparr>setting = \<lparr>in_state = [(PauliZ, 0, 0)], out_operator = \<lparr>ops = [(0, PauliY)], coefficient = 1\<rparr>\<rparr>,
      expectation = b, std_err = 0\<rparr>,
    \<lparr>setting = \<lparr>in_state = [(PauliZ, 0, 0)], out_operator = \<lparr>ops = [(0, PauliZ)], coefficient = 1\<rparr>\<rparr>,
      expectation = c, std_err = 0\<rparr>]"
  by (simp add: results_of_def state_tomo_settings_def terms1 zeros_state_def)

lemma one_qubit_matrix:
  "spec_measurement_matrix (results_of [0] [a, b, c]) [0] = [[0, 1, 1, 0], [0, - \<i>, \<i>, 0], [1, 0, 0, - 1]]"
  by (simp add: one_qubit_results spec_measurement_matrix_def lifted_pauli_eval spec_vec_def nrows_def ncols_def)

lemma one_qubit_gram:
  "gram [[0, 1, 1, 0], [0, - \<i>, \<i>, 0], [1, 0, 0, - 1]] = mat_of 3 3 (\<lambda>i j. if i = j then 2 else 0)"
  by (simp add: gram_def dot_Cons dot_Nil mat_of_def upt_rec)

lemma one_qubit_pinv:
  "is_pinv [[0, 1, 1, 0], [0, - \<i>, \<i>, 0], [1, 0, 0, - 1]]
     (pinv_orthogonal_rows [[0, 1, 1, 0], [0, - \<i>, \<i>, 0], [1, 0, 0, - 1]])"
  by (rule pinv_orthogonal_rows_correct [where m = 3 and n = 4 and c = 2])
    (simp_all add: is_mat_def one_qubit_gram)

lemma one_qubit_pinv_eval:
  "pinv_orthogonal_rows [[0, 1, 1, 0], [0, - \<i>, \<i>, 0], [1, 0, 0, - 1]]
     = [[0, 0, 1 / 2], [1 / 2, \<i> / 2, 0], [1 / 2, - \<i> / 2, 0], [0, 0, - 1 / 2]]"
  by (simp add: pinv_orthogonal_rows_def dot_Cons dot_Nil herm_def mat_of_def mat_div_def nrows_def ncols_def upt_rec)

lemma one_qubit_correct: "pinv_correct pinv_orthogonal_rows (results_of [0] [a, b, c]) [0]"
proof -
  have "results_of [0] [a, b, c] \<noteq> []" by (simp add: one_qubit_results)
  then show ?thesis
    by (simp add: pinv_correct_iff one_qubit_matrix one_qubit_pinv)
qed

lemma one_qubit_shaped: "pinv_shaped pinv_orthogonal_rows (results_of [0] [a, b, c]) [0]"
  using one_qubit_correct [of a b c]
  by (auto simp: pinv_correct_def pinv_shaped_def is_pinv_def split: sum.splits)

lemma one_qubit_spec_estimate:
  "spec_estimate pinv_orthogonal_rows (results_of [0] [a, b, c]) [0]
     = [[(1 + complex_of_real c) / 2, (complex_of_real a - \<i> * complex_of_real b) / 2],
        [(complex_of_real a + \<i> * complex_of_real b) / 2, (1 - complex_of_real c) / 2]]"
  unfolding spec_estimate_def Let_def one_qubit_matrix one_qubit_pinv_eval
  by (simp add: one_qubit_results expectations_def dot_Cons dot_Nil spec_unvec_def mat_of_def upt_rec field_simps)

lemma one_qubit_estimate:
  "linear_inv_state_estimate pinv_orthogonal_rows (results_of [0] [a, b, c]) [0]
     = Inr [[(1 + complex_of_real c) / 2, (complex_of_real a - \<i> * complex_of_real b) / 2],
            [(complex_of_real a + \<i> * complex_of_real b) / 2, (1 - complex_of_real c) / 2]]"
proof -
  have ne: "results_of [0] [a, b, c] \<noteq> []" by (simp add: one_qubit_results)
  have "pinv_shape (spec_measurement_matrix (results_of [0] [a, b, c]) [0])
      (pinv_orthogonal_rows (spec_measurement_matrix (results_of [0] [a, b, c]) [0]))"
    using one_qubit_shaped [of a b c] by (simp add: pinv_shaped_iff [OF ne])
  from estimate_run [where pinv = pinv_orthogonal_rows, OF ne this] show ?thesis
    by (simp add: one_qubit_spec_estimate)
qed

lemma vec_flat:
  assumes "is_mat d d A" and "0 < d"
  shows "concat (vec A) = spec_vec A"
  by (simp add: vec_eq [OF assms] spec_vec_eq [OF assms] concat_map_singleton)

lemma unvec_vec:
  assumes "is_mat d d A" and "0 < d"
  shows "unvec (concat (vec A)) = Inr A"
proof -
  have "length (spec_vec A) = d * d"
    by (simp add: spec_vec_eq [OF assms])
  then show ?thesis
    by (simp add: vec_flat [OF assms] unvec_spec spec_unvec_vec [OF assms(1)])
qed

section \<open>Properties of the linear-inversion estimator\<close>

text \<open>
  C1, as stated: for every ordered list of results the estimator returns
  \<open>unvec (pinv M @ y) + I / 2^n\<close>. It fails for the empty list on one qubit: stacking
  no rows raises \<open>ValueError\<close>, and nothing is returned.
\<close>

theorem empty_input_counterexample:
  "linear_inv_state_estimate pinv_orthogonal_rows [] [0] = Inl ValueError
   \<and> linear_inv_state_estimate pinv_orthogonal_rows [] [0]
       \<noteq> Inr (spec_estimate pinv_orthogonal_rows [] [0])"
  by (simp add: estimate_Nil)

text \<open>
  C1, amended: for every non-empty ordered list of results over \<open>n\<close> qubits, with \<open>pinv\<close>
  returning a matrix of the shape of the pseudo-inverse, the estimator builds the
  measurement matrix \<open>M\<close> whose rows are the conjugated vectorized matrices of the
  observables in the order of the input, and returns \<open>unvec (pinv M @ y) + I / 2^n\<close>
  for the vector \<open>y\<close> of the expectations in the same order. The vectorization convention
  is one and the same (column stacking): un-vectorizing the vectorization of a
  \<open>2^n \<times> 2^n\<close> matrix gives the matrix back, for the functions of the specification and
  for \<open>vec\<close> and \<open>unvec\<close> of the code.
\<close>

theorem linear_inv_state_estimate_refines_spec:
  assumes "results \<noteq> []"
    and "pinv_shaped pinv results qubits"
    and "is_mat (2 ^ length qubits) (2 ^ length qubits) A"
  shows "measurement_matrix results qubits = Inr (spec_measurement_matrix results qubits)
    \<and> linear_inv_state_estimate pinv results qubits = Inr (spec_estimate pinv results qubits)
    \<and> spec_unvec (2 ^ length qubits) (spec_vec A) = A
    \<and> unvec (concat (vec A)) = Inr A"
proof -
  have "pinv_shape (spec_measurement_matrix results qubits) (pinv (spec_measurement_matrix results qubits))"
    using assms(1,2) by (simp add: pinv_shaped_iff)
  then have "linear_inv_state_estimate pinv results qubits = Inr (spec_estimate pinv results qubits)"
    by (rule estimate_run [OF assms(1)])
  moreover have "unvec (concat (vec A)) = Inr A"
    by (rule unvec_vec [OF assms(3)]) simp
  ultimately show ?thesis
    using measurement_matrix_spec [OF assms(1)] spec_unvec_vec [OF assms(3)] by simp
qed

theorem linear_inv_state_estimate_refines_spec_witness:
  "results_of [0] [0, 0, 1] \<noteq> []
   \<and> pinv_shaped pinv_orthogonal_rows (results_of [0] [0, 0, 1]) [0]
   \<and> is_mat (2 ^ length [0 :: nat]) (2 ^ length [0 :: nat]) (gate_matrix PauliY)
   \<and> measurement_matrix (results_of [0] [0, 0, 1]) [0]
       = Inr [[0, 1, 1, 0], [0, - \<i>, \<i>, 0], [1, 0, 0, - 1]]
   \<and> linear_inv_state_estimate pinv_orthogonal_rows (results_of [0] [0, 0, 1]) [0]
       = Inr [[1, 0], [0, 0]]
   \<and> spec_estimate pinv_orthogonal_rows (results_of [0] [0, 0, 1]) [0] = [[1, 0], [0, 0]]
   \<and> spec_unvec (2 ^ length [0 :: nat]) (spec_vec (gate_matrix PauliY)) = gate_matrix PauliY
   \<and> unvec (concat (vec (gate_matrix PauliY))) = Inr (gate_matrix PauliY)"
proof -
  have h1: "results_of [0] [0, 0, 1] \<noteq> []" by (simp add: one_qubit_results)
  have h2: "pinv_shaped pinv_orthogonal_rows (results_of [0] [0, 0, 1]) [0]"
    by (rule one_qubit_shaped)
  have h3: "is_mat (2 ^ length [0 :: nat]) (2 ^ length [0 :: nat]) (gate_matrix PauliY)"
    by (simp add: is_mat_def)
  have e: "spec_estimate pinv_orthogonal_rows (results_of [0] [0, 0, 1]) [0] = [[1, 0], [0, 0]]"
    by (simp add: one_qubit_spec_estimate)
  show ?thesis
    using linear_inv_state_estimate_refines_spec [OF h1 h2 h3] h1 h2 h3
    by (simp add: e one_qubit_matrix)
qed

lemma single_result:
  "results_of [0] [1] =
   [\<lparr>setting = \<lparr>in_state = [(PauliZ, 0, 0)], out_operator = \<lparr>ops = [(0, PauliX)], coefficient = 1\<rparr>\<rparr>,
      expectation = 1, std_err = 0\<rparr>]"
  by (simp add: results_of_def state_tomo_settings_def terms1 zeros_state_def)

lemma single_result_matrix: "spec_measurement_matrix (results_of [0] [1]) [0] = [[0, 1, 1, 0]]"
  by (simp add: single_result spec_measurement_matrix_def lifted_pauli_eval spec_vec_def nrows_def ncols_def)

lemma single_result_pinv: "is_pinv [[0, 1, 1, 0]] (pinv_orthogonal_rows [[0, 1, 1, 0]])"
  by (rule pinv_orthogonal_rows_correct [where m = 1 and n = 4 and c = 2])
    (simp_all add: is_mat_def gram_def dot_Cons dot_Nil mat_of_def)

lemma single_result_pinv_eval: "pinv_orthogonal_rows [[0, 1, 1, 0]] = [[0], [1 / 2], [1 / 2], [0]]"
  by (simp add: pinv_orthogonal_rows_def dot_Cons dot_Nil herm_def mat_of_def mat_div_def nrows_def ncols_def upt_rec)

lemma single_result_spec_estimate:
  "spec_estimate pinv_orthogonal_rows (results_of [0] [1]) [0] = [[1 / 2, 1 / 2], [1 / 2, 1 / 2]]"
  unfolding spec_estimate_def Let_def single_result_matrix single_result_pinv_eval
  by (simp add: single_result expectations_def dot_Cons dot_Nil spec_unvec_def mat_of_def upt_rec)

text \<open>
  C2, as stated: an input list whose length is not \<open>4^n - 1\<close> makes the estimator fail
  with a DimensionMismatch error. It does not: for the qubit list \<open>[0]\<close> and the single
  result of X0 with expectation \<open>1\<close> (one result, not three) the estimator returns a
  matrix, with \<open>pinv\<close> the Moore-Penrose pseudo-inverse of the measurement matrix.
\<close>

theorem length_mismatch_counterexample:
  "length (results_of [0] [1]) \<noteq> 4 ^ length [0 :: nat] - 1
   \<and> pinv_correct pinv_orthogonal_rows (results_of [0] [1]) [0]
   \<and> linear_inv_state_estimate pinv_orthogonal_rows (results_of [0] [1]) [0]
       = Inr [[1 / 2, 1 / 2], [1 / 2, 1 / 2]]"
proof -
  have ne: "results_of [0] [1] \<noteq> []" by (simp add: single_result)
  have c: "pinv_correct pinv_orthogonal_rows (results_of [0] [1]) [0]"
    by (simp add: pinv_correct_iff [OF ne] single_result_matrix single_result_pinv)
  then have "pinv_shape (spec_measurement_matrix (results_of [0] [1]) [0])
      (pinv_orthogonal_rows (spec_measurement_matrix (results_of [0] [1]) [0]))"
    by (simp add: pinv_correct_iff [OF ne] is_pinv_def)
  from estimate_run [where pinv = pinv_orthogonal_rows, OF ne this]
  have "linear_inv_state_estimate pinv_orthogonal_rows (results_of [0] [1]) [0]
      = Inr [[1 / 2, 1 / 2], [1 / 2, 1 / 2]]"
    by (simp add: single_result_spec_estimate)
  moreover have "length (results_of [0] [1]) \<noteq> 4 ^ length [0 :: nat] - 1"
    by (simp add: single_result)
  ultimately show ?thesis using c by simp
qed

text \<open>
  C2, amended: the estimator does not compare the length of the input list with
  \<open>4^n - 1\<close>. For every non-empty input list, of any length, it returns a \<open>2^n \<times> 2^n\<close>
  matrix (with \<open>pinv\<close> returning a matrix of the shape of the pseudo-inverse). Only the
  empty list fails, with the \<open>ValueError\<close> of stacking no rows, and returns nothing.
\<close>

theorem linear_inv_no_length_check:
  assumes "results \<noteq> []" and "pinv_shaped pinv results qubits"
  shows "(\<exists>rho. linear_inv_state_estimate pinv results qubits = Inr rho
           \<and> is_mat (2 ^ length qubits) (2 ^ length qubits) rho)
    \<and> linear_inv_state_estimate pinv [] qubits = Inl ValueError"
proof -
  have "pinv_shape (spec_measurement_matrix results qubits) (pinv (spec_measurement_matrix results qubits))"
    using assms by (simp add: pinv_shaped_iff)
  then have "linear_inv_state_estimate pinv results qubits = Inr (spec_estimate pinv results qubits)"
    by (rule estimate_run [OF assms(1)])
  then show ?thesis
    using is_mat_spec_estimate [of qubits pinv results] by (simp add: estimate_Nil)
qed

theorem linear_inv_no_length_check_witness:
  "results_of [0] [1] \<noteq> []
   \<and> pinv_shaped pinv_orthogonal_rows (results_of [0] [1]) [0]
   \<and> (\<exists>rho. linear_inv_state_estimate pinv_orthogonal_rows (results_of [0] [1]) [0] = Inr rho
          \<and> is_mat (2 ^ length [0 :: nat]) (2 ^ length [0 :: nat]) rho)
   \<and> linear_inv_state_estimate pinv_orthogonal_rows [] [0] = Inl ValueError"
proof -
  have h1: "results_of [0] [1] \<noteq> []" by (simp add: single_result)
  have h2: "pinv_shaped pinv_orthogonal_rows (results_of [0] [1]) [0]"
    by (simp add: pinv_shaped_iff [OF h1] single_result_matrix single_result_pinv_eval pinv_shape_def
        is_mat_def ncols_def nrows_def)
  show ?thesis
    using linear_inv_no_length_check [OF h1 h2] h1 h2 by simp
qed

text \<open>
  C3, as stated: on all \<open>4^n - 1\<close> non-identity Pauli observables with expectation \<open>0\<close> the
  estimator returns \<open>I / 2^n\<close>. It fails for \<open>n = 0\<close>: there are no such observables, the
  input is the empty list, and stacking no rows raises \<open>ValueError\<close>.
\<close>

theorem zero_qubits_counterexample:
  "map (\<lambda>r. out_operator (setting r)) [] = all_traceless_pauli_terms []
   \<and> linear_inv_state_estimate pinv_orthogonal_rows [] [] = Inl ValueError"
  by (simp add: estimate_Nil all_traceless_pauli_terms_def)

text \<open>
  C3, amended: for \<open>n \<ge> 1\<close> qubits, on the input of all \<open>4^n - 1\<close> non-identity Pauli
  observables, each with expectation \<open>0\<close>, the estimator returns exactly the maximally
  mixed state \<open>I / 2^n\<close> (with \<open>pinv\<close> returning a matrix of the shape of the
  pseudo-inverse; the arithmetic is exact).
\<close>

theorem maximally_mixed_state:
  assumes "qubits \<noteq> []"
    and "map (\<lambda>r. out_operator (setting r)) results = all_traceless_pauli_terms qubits"
    and "list_all (\<lambda>r. expectation r = 0) results"
    and "pinv_shaped pinv results qubits"
  shows "linear_inv_state_estimate pinv results qubits
    = Inr (mat_div (eye (2 ^ length qubits)) (of_nat (2 ^ length qubits)))"
proof -
  have "length results = 4 ^ length qubits - 1"
    using arg_cong [OF assms(2), of length] by (simp add: length_all_traceless_pauli_terms)
  moreover have "(4 :: nat) ^ length qubits \<ge> 4 ^ 1"
    using assms(1) by (intro power_increasing) (simp_all add: Suc_le_eq)
  ultimately have ne: "results \<noteq> []" by auto
  have shape: "pinv_shape (spec_measurement_matrix results qubits) (pinv (spec_measurement_matrix results qubits))"
    using ne assms(4) by (simp add: pinv_shaped_iff)
  have "linear_inv_state_estimate pinv results qubits = Inr (spec_estimate pinv results qubits)"
    by (rule estimate_run [where pinv = pinv, OF ne shape])
  also have "spec_estimate pinv results qubits = mat_div (eye (2 ^ length qubits)) (of_nat (2 ^ length qubits))"
    by (rule spec_estimate_zero [where pinv = pinv, OF ne shape]) (use assms(3) in \<open>simp add: list_all_iff\<close>)
  finally show ?thesis .
qed

theorem maximally_mixed_state_witness:
  "[0 :: nat] \<noteq> []
   \<and> map (\<lambda>r. out_operator (setting r)) (results_of [0] [0, 0, 0]) = all_traceless_pauli_terms [0]
   \<and> list_all (\<lambda>r. expectation r = 0) (results_of [0] [0, 0, 0])
   \<and> pinv_shaped pinv_orthogonal_rows (results_of [0] [0, 0, 0]) [0]
   \<and> linear_inv_state_estimate pinv_orthogonal_rows (results_of [0] [0, 0, 0]) [0]
       = Inr [[1 / 2, 0], [0, 1 / 2]]"
proof -
  have h1: "[0 :: nat] \<noteq> []" by simp
  have h2: "map (\<lambda>r. out_operator (setting r)) (results_of [0] [0, 0, 0]) = all_traceless_pauli_terms [0]"
    by (simp add: one_qubit_results terms1)
  have h3: "list_all (\<lambda>r. expectation r = 0) (results_of [0] [0, 0, 0])"
    by (simp add: one_qubit_results)
  have h4: "pinv_shaped pinv_orthogonal_rows (results_of [0] [0, 0, 0]) [0]"
    by (rule one_qubit_shaped)
  have "mat_div (eye (2 ^ length [0 :: nat])) (of_nat (2 ^ length [0 :: nat])) = [[1 / 2, 0], [0, 1 / 2]]"
    by (simp add: mat_div_def eye_def mat_of_def upt_rec)
  then show ?thesis
    using maximally_mixed_state [OF h1 h2 h3 h4] h2 h3 h4 by simp
qed

text \<open>
  C7. For every input list of \<open>4^n - 1\<close> results whose observables are the non-identity
  Pauli tensor products on the qubits, whatever the expectations, the matrix that the
  estimator returns has trace exactly \<open>1\<close>, with \<open>pinv\<close> the Moore-Penrose pseudo-inverse
  of the measurement matrix: the solution \<open>pinv M @ y\<close> lies in the span of the vectorized
  observables, which are traceless, and \<open>I / 2^n\<close> has trace \<open>1\<close>. For at least one qubit
  the estimator does return a matrix.
\<close>

theorem estimate_trace_one:
  assumes "length results = 4 ^ length qubits - 1"
    and "set (map (\<lambda>r. out_operator (setting r)) results) = set (all_traceless_pauli_terms qubits)"
    and "pinv_correct pinv results qubits"
  shows "(qubits \<noteq> [] \<longrightarrow> (\<exists>rho. linear_inv_state_estimate pinv results qubits = Inr rho))
    \<and> (\<forall>rho. linear_inv_state_estimate pinv results qubits = Inr rho \<longrightarrow> trace rho = 1)"
proof (cases "results = []")
  case True
  moreover have "(4 :: nat) ^ length qubits \<ge> 4 ^ 1" if "qubits \<noteq> []"
    using that by (intro power_increasing) (simp_all add: Suc_le_eq)
  ultimately have "qubits = []" using assms(1) by fastforce
  with True show ?thesis by (simp add: estimate_Nil)
next
  case False
  have pinv: "is_pinv (spec_measurement_matrix results qubits) (pinv (spec_measurement_matrix results qubits))"
    using False assms(3) by (simp add: pinv_correct_iff)
  then have shape: "pinv_shape (spec_measurement_matrix results qubits) (pinv (spec_measurement_matrix results qubits))"
    by (simp add: is_pinv_def)
  have run: "linear_inv_state_estimate pinv results qubits = Inr (spec_estimate pinv results qubits)"
    by (rule estimate_run [where pinv = pinv, OF False shape])
  have "trace (lifted_pauli (out_operator (setting r)) qubits) = 0" if "r \<in> set results" for r
  proof -
    have "out_operator (setting r) \<in> set (map (\<lambda>r. out_operator (setting r)) results)"
      using that by simp
    then have "out_operator (setting r) \<in> set (all_traceless_pauli_terms qubits)"
      by (simp only: assms(2))
    then show ?thesis by (rule traceless_observables)
  qed
  then have "trace (spec_estimate pinv results qubits) = 1"
    by (rule trace_spec_estimate [where pinv = pinv, OF False pinv])
  then show ?thesis by (simp add: run)
qed

theorem estimate_trace_one_witness:
  "length (results_of [0] [1 / 2, 1 / 4, - 1 / 3]) = 4 ^ length [0 :: nat] - 1
   \<and> set (map (\<lambda>r. out_operator (setting r)) (results_of [0] [1 / 2, 1 / 4, - 1 / 3]))
       = set (all_traceless_pauli_terms [0])
   \<and> pinv_correct pinv_orthogonal_rows (results_of [0] [1 / 2, 1 / 4, - 1 / 3]) [0]
   \<and> (\<exists>rho. linear_inv_state_estimate pinv_orthogonal_rows (results_of [0] [1 / 2, 1 / 4, - 1 / 3]) [0] = Inr rho
          \<and> trace rho = 1)"
proof -
  have h1: "length (results_of [0] [1 / 2, 1 / 4, - 1 / 3]) = 4 ^ length [0 :: nat] - 1"
    by (simp add: one_qubit_results)
  have h2: "set (map (\<lambda>r. out_operator (setting r)) (results_of [0] [1 / 2, 1 / 4, - 1 / 3]))
      = set (all_traceless_pauli_terms [0])"
    by (simp add: one_qubit_results terms1)
  have h3: "pinv_correct pinv_orthogonal_rows (results_of [0] [1 / 2, 1 / 4, - 1 / 3]) [0]"
    by (rule one_qubit_correct)
  show ?thesis
    using estimate_trace_one [OF h1 h2 h3] h1 h2 h3 by auto
qed

lemma bell_results_ne: "bell_results \<noteq> []"
proof -
  have "length (expectations bell_results) = 15" by (simp add: bell_y)
  then show ?thesis by (auto simp: expectations_def)
qed

lemma is_mat_bell_M: "is_mat 15 16 bell_M"
  by (simp add: bell_M_def is_mat_def)

lemma bell_gram': "gram bell_M = mat_of 15 15 (\<lambda>i j. if i = j then 4 else 0)"
  unfolding gram_def by (rule bell_gram)

lemma bell_spec_estimate:
  assumes "is_pinv bell_M (pinv bell_M)"
  shows "spec_estimate pinv bell_results [0, 1] = rho_bell"
proof -
  have y: "length (expectations bell_results) = 15" by (simp add: bell_y)
  have "map (\<lambda>row. dot row (expectations bell_results)) (pinv bell_M)
      = map (\<lambda>row. dot row (expectations bell_results) / 4) (herm bell_M)"
    by (rule pinv_apply_gram [OF is_mat_bell_M _ _ assms bell_gram' _ y]) simp_all
  also have "\<dots> = [1/4,0,0,1/2, 0,-1/4,0,0, 0,0,-1/4,0, 1/2,0,0,1/4]"
    unfolding bell_MH_eq by (rule bell_rho_vec)
  finally have rho: "map (\<lambda>row. dot row (expectations bell_results)) (pinv bell_M)
      = [1/4,0,0,1/2, 0,-1/4,0,0, 0,0,-1/4,0, 1/2,0,0,1/4]" .
  show ?thesis
    unfolding spec_estimate_def Let_def bell_M_eq rho
    by (simp add: spec_unvec_def mat_of_def upt_rec rho_bell_def)
qed

lemma within_tol_refl: "0 \<le> tol \<Longrightarrow> within_tol tol A A"
  by (simp add: within_tol_def list_all2_same)

text \<open>
  C4. For the two qubits \<open>(0, 1)\<close> and the fifteen non-identity Pauli observables with
  the exact expectations of the Bell state (\<open>+1\<close> for X0X1, \<open>-1\<close> for Y0Y1, \<open>+1\<close> for
  Z0Z1, \<open>0\<close> for all others), the estimator returns the matrix
  \<open>[[1/2, 0, 0, 1/2], [0, 0, 0, 0], [0, 0, 0, 0], [1/2, 0, 0, 1/2]]\<close>, with \<open>pinv\<close> the
  Moore-Penrose pseudo-inverse of the measurement matrix. In exact arithmetic the
  result is this matrix itself, so it is within the tolerance \<open>10^-9\<close>; it is also the
  matrix that \<open>build_rho_true\<close> computes.
\<close>

theorem bell_state_reconstruction:
  assumes "pinv_correct pinv bell_results [0, 1]"
  shows "\<exists>rho. linear_inv_state_estimate pinv bell_results [0, 1] = Inr rho
    \<and> rho = rho_bell \<and> within_tol (1 / 10 ^ 9) rho rho_bell \<and> rho = build_rho_true"
proof -
  have pinv: "is_pinv bell_M (pinv bell_M)"
    using assms unfolding pinv_correct_iff [OF bell_results_ne] bell_M_eq .
  then have "pinv_shape (spec_measurement_matrix bell_results [0, 1])
      (pinv (spec_measurement_matrix bell_results [0, 1]))"
    unfolding bell_M_eq by (simp add: is_pinv_def)
  then have "linear_inv_state_estimate pinv bell_results [0, 1]
      = Inr (spec_estimate pinv bell_results [0, 1])"
    by (rule estimate_run [where pinv = pinv, OF bell_results_ne])
  then have run: "linear_inv_state_estimate pinv bell_results [0, 1] = Inr rho_bell"
    unfolding bell_spec_estimate [where pinv = pinv, OF pinv] .
  have "within_tol (1 / 10 ^ 9) rho_bell rho_bell"
    by (rule within_tol_refl) simp
  with run show ?thesis by (simp add: build_rho_true_eq)
qed

theorem bell_state_reconstruction_witness:
  "pinv_correct pinv_orthogonal_rows bell_results [0, 1]
   \<and> (\<exists>rho. linear_inv_state_estimate pinv_orthogonal_rows bell_results [0, 1] = Inr rho
          \<and> rho = rho_bell \<and> within_tol (1 / 10 ^ 9) rho rho_bell \<and> rho = build_rho_true)"
proof -
  have "is_pinv bell_M (pinv_orthogonal_rows bell_M)"
    by (rule pinv_orthogonal_rows_correct [OF is_mat_bell_M _ _ bell_gram']) simp_all
  then have h: "pinv_correct pinv_orthogonal_rows bell_results [0, 1]"
    unfolding pinv_correct_iff [OF bell_results_ne] bell_M_eq .
  show ?thesis
    using bell_state_reconstruction [OF h] h by blast
qed

end
